theory Spec2Isabelle
  imports Complex_Main "HOL-Library.Sublist"
begin

section \<open>Well-log utilities: the zone labeller and the track renderer\<close>

text \<open>
  The module \<^verbatim>\<open>bwli/utils.py\<close> has two functions over a pandas DataFrame:
  \<^verbatim>\<open>add_productive_zones\<close> (the labeller) and \<^verbatim>\<open>combo_plot\<close> (the renderer).
  DataFrames are mutable objects passed by reference, so the embedding keeps them in a
  heap and every function is a state transformer that may raise.
\<close>

subsection \<open>Cells, columns and tables\<close>

text \<open>
  A cell of a column is a float, a missing value or an integer. Floats are modelled by
  the real numbers they denote; \<open>NaN\<close> is the missing value, which compares false
  with everything.
\<close>

datatype cell = Flt real | NaN | IntV int

fun num :: "cell \<Rightarrow> real option" where
  "num (Flt x) = Some x"
| "num NaN = None"
| "num (IntV n) = Some (of_int n)"

fun isna :: "cell \<Rightarrow> bool" where
  "isna NaN = True"
| "isna (Flt x) = False"
| "isna (IntV n) = False"

text \<open>The elementwise comparisons \<^verbatim>\<open>series >= x\<close> and \<^verbatim>\<open>series <= x\<close> on one cell.\<close>

definition ge_scalar :: "cell \<Rightarrow> real \<Rightarrow> bool" where
  "ge_scalar c x = (case num c of None \<Rightarrow> False | Some v \<Rightarrow> v \<ge> x)"

definition le_scalar :: "cell \<Rightarrow> real \<Rightarrow> bool" where
  "le_scalar c x = (case num c of None \<Rightarrow> False | Some v \<Rightarrow> v \<le> x)"

text \<open>The elementwise \<^verbatim>\<open>&\<close> of two boolean series.\<close>

definition and_mask :: "bool list \<Rightarrow> bool list \<Rightarrow> bool list" where
  "and_mask a b = map2 (\<and>) a b"

text \<open>
  A DataFrame: the row labels and the named columns, in column order. pandas keeps
  every column as long as the index and the column names apart (\<open>wf_table\<close>).
\<close>

record table =
  index :: "int list"
  cols :: "(string \<times> cell list) list"

definition columns :: "table \<Rightarrow> string list" where
  "columns t = map fst (cols t)"

definition get_column :: "table \<Rightarrow> string \<Rightarrow> cell list option" where
  "get_column t c = map_of (cols t) c"

definition wf_table :: "table \<Rightarrow> bool" where
  "wf_table t \<longleftrightarrow>
     distinct (columns t) \<and> list_all (\<lambda>(c, vs). length vs = length (index t)) (cols t)"

text \<open>
  Assigning a whole column: an existing column keeps its place, a new one goes last.
\<close>

fun put_column :: "(string \<times> cell list) list \<Rightarrow> string \<Rightarrow> cell list \<Rightarrow> (string \<times> cell list) list" where
  "put_column [] c vs = [(c, vs)]"
| "put_column ((c', vs') # rest) c vs =
     (if c' = c then (c, vs) # rest else (c', vs') # put_column rest c vs)"

text \<open>\<^verbatim>\<open>df[c] = v\<close> with a scalar \<open>v\<close>: the value on every row.\<close>

definition set_scalar :: "table \<Rightarrow> string \<Rightarrow> cell \<Rightarrow> table" where
  "set_scalar t c v = t\<lparr>cols := put_column (cols t) c (replicate (length (index t)) v)\<rparr>"

text \<open>
  \<^verbatim>\<open>df.loc[mask, c] = v\<close> with a boolean mask and a scalar: the rows where the mask
  holds get \<open>v\<close>; a column that does not exist yet is created, missing elsewhere.
\<close>

definition loc_set_mask :: "table \<Rightarrow> bool list \<Rightarrow> string \<Rightarrow> cell \<Rightarrow> table" where
  "loc_set_mask t msk c v =
     (case get_column t c of
        Some old \<Rightarrow> t\<lparr>cols := put_column (cols t) c (map2 (\<lambda>m x. if m then v else x) msk old)\<rparr>
      | None \<Rightarrow> t\<lparr>cols := put_column (cols t) c (map (\<lambda>m. if m then v else NaN) msk)\<rparr>)"

text \<open>\<^verbatim>\<open>df[mask]\<close>: the rows where the mask holds, labels and all columns.\<close>

definition select :: "bool list \<Rightarrow> 'a list \<Rightarrow> 'a list" where
  "select msk xs = map snd (filter fst (zip msk xs))"

definition select_rows :: "table \<Rightarrow> bool list \<Rightarrow> table" where
  "select_rows t msk =
     \<lparr>index = select msk (index t), cols = map (\<lambda>(c, vs). (c, select msk vs)) (cols t)\<rparr>"

subsection \<open>The heap of DataFrames, output and exceptions\<close>

datatype py_error = KeyError | AttributeError | ValueError | IndexError | DanglingRef

text \<open>
  A reference is a position in the heap; objects are never freed. \<open>stdout\<close> holds the
  lines printed so far. A program returns its value or the exception raised, and the
  state it leaves. \<open>DanglingRef\<close> is not a Python exception: it marks a reference
  outside the heap, which Python cannot produce.
\<close>

type_synonym ref = nat

record pystate =
  heap :: "table list"
  stdout :: "string list"

type_synonym 'a prog = "pystate \<Rightarrow> (py_error + 'a) \<times> pystate"

definition return_val :: "'a \<Rightarrow> 'a prog" where
  "return_val x = (\<lambda>s. (Inr x, s))"

definition raise_err :: "py_error \<Rightarrow> 'a prog" where
  "raise_err e = (\<lambda>s. (Inl e, s))"

definition bind_prog :: "'a prog \<Rightarrow> ('a \<Rightarrow> 'b prog) \<Rightarrow> 'b prog" where
  "bind_prog m f = (\<lambda>s. case m s of (Inl e, s') \<Rightarrow> (Inl e, s') | (Inr x, s') \<Rightarrow> f x s')"

text \<open>\<^verbatim>\<open>for x in xs: body\<close>\<close>

fun for_each :: "('a \<Rightarrow> unit prog) \<Rightarrow> 'a list \<Rightarrow> unit prog" where
  "for_each body [] = return_val ()"
| "for_each body (x # xs) = bind_prog (body x) (\<lambda>_. for_each body xs)"

definition deref :: "ref \<Rightarrow> table prog" where
  "deref r = (\<lambda>s. if r < length (heap s) then (Inr (heap s ! r), s) else (Inl DanglingRef, s))"

definition assign :: "ref \<Rightarrow> table \<Rightarrow> unit prog" where
  "assign r t =
     (\<lambda>s. if r < length (heap s) then (Inr (), s\<lparr>heap := (heap s)[r := t]\<rparr>)
          else (Inl DanglingRef, s))"

definition new_object :: "table \<Rightarrow> ref prog" where
  "new_object t = (\<lambda>s. (Inr (length (heap s)), s\<lparr>heap := heap s @ [t]\<rparr>))"

definition print_line :: "string \<Rightarrow> unit prog" where
  "print_line l = (\<lambda>s. (Inr (), s\<lparr>stdout := stdout s @ [l]\<rparr>))"

text \<open>\<^verbatim>\<open>df.copy()\<close>: a new object with the same labels and values.\<close>

definition df_copy :: "ref \<Rightarrow> ref prog" where
  "df_copy r = bind_prog (deref r) new_object"

text \<open>\<^verbatim>\<open>df[c]\<close> raises KeyError and \<^verbatim>\<open>df.c\<close> raises AttributeError on a missing column.\<close>

definition getitem :: "ref \<Rightarrow> string \<Rightarrow> cell list prog" where
  "getitem r c =
     bind_prog (deref r) (\<lambda>t. case get_column t c of None \<Rightarrow> raise_err KeyError
                                | Some vs \<Rightarrow> return_val vs)"

definition getattr :: "ref \<Rightarrow> string \<Rightarrow> cell list prog" where
  "getattr r c =
     bind_prog (deref r) (\<lambda>t. case get_column t c of None \<Rightarrow> raise_err AttributeError
                                | Some vs \<Rightarrow> return_val vs)"

definition setitem_scalar :: "ref \<Rightarrow> string \<Rightarrow> cell \<Rightarrow> unit prog" where
  "setitem_scalar r c v = bind_prog (deref r) (\<lambda>t. assign r (set_scalar t c v))"

definition loc_setitem_mask :: "ref \<Rightarrow> bool list \<Rightarrow> string \<Rightarrow> cell \<Rightarrow> unit prog" where
  "loc_setitem_mask r msk c v = bind_prog (deref r) (\<lambda>t. assign r (loc_set_mask t msk c v))"

subsection \<open>The labeller\<close>

text \<open>
  \<^verbatim>\<open>add_productive_zones(data, productive_zones)\<close>: copy the table, set the class
  column to 0 on every row, then for each zone set it to 1 where the \<^verbatim>\<open>DEPT\<close> value
  lies between the zone's bounds. The attribute \<^verbatim>\<open>result.DEPT\<close> is read inside the
  loop, twice for each zone.
\<close>

definition mark_zone :: "ref \<Rightarrow> real \<times> real \<Rightarrow> unit prog" where
  "mark_zone result zone =
     (case zone of (top', base) \<Rightarrow>
        bind_prog (getattr result ''DEPT'') (\<lambda>dept_ge.
        bind_prog (getattr result ''DEPT'') (\<lambda>dept_le.
        loc_setitem_mask result
          (and_mask (map (\<lambda>d. ge_scalar d top') dept_ge) (map (\<lambda>d. le_scalar d base) dept_le))
          ''hydrocarbon_formation_class'' (IntV 1))))"

definition add_productive_zones :: "ref \<Rightarrow> (real \<times> real) list \<Rightarrow> ref prog" where
  "add_productive_zones data productive_zones =
     bind_prog (df_copy data) (\<lambda>result.
     bind_prog (setitem_scalar result ''hydrocarbon_formation_class'' (IntV 0)) (\<lambda>_.
     bind_prog (for_each (mark_zone result) productive_zones) (\<lambda>_.
     return_val result)))"

text \<open>
  The claims' words, for comparison with the code: a depth lies in an interval when
  \<open>top \<le> depth \<le> base\<close>, and a row's class is 1 when its depth lies in some interval.
\<close>

definition in_interval :: "cell \<Rightarrow> real \<times> real \<Rightarrow> bool" where
  "in_interval d iv = (case num d of None \<Rightarrow> False | Some x \<Rightarrow> fst iv \<le> x \<and> x \<le> snd iv)"

definition zone_class :: "(real \<times> real) list \<Rightarrow> cell \<Rightarrow> cell" where
  "zone_class zones d = (if \<exists>iv \<in> set zones. in_interval d iv then IntV 1 else IntV 0)"


subsection \<open>The renderer's configuration\<close>

text \<open>
  Tracks and curves are dictionaries; a key that may be absent is an optional field, and
  \<^verbatim>\<open>d.get(k, default)\<close> is \<open>dict_get\<close>. Subscripting an absent key raises KeyError.
\<close>

record curve_config =
  cv_column :: "string option"
  cv_label :: "string option"
  cv_color :: "string option"
  cv_linestyle :: "string option"
  cv_min_val :: "real option"
  cv_max_val :: "real option"
  cv_log_scale :: "bool option"
  cv_invert_axis :: "bool option"
  cv_position_offset :: "int option"
  cv_show_grid :: "bool option"

record track_config =
  tk_title :: "string option"
  tk_show_grid :: "bool option"
  tk_smoothing :: "string option"
  tk_curves :: "curve_config list option"

definition dict_get :: "'a option \<Rightarrow> 'a \<Rightarrow> 'a" where
  "dict_get field dflt = (case field of None \<Rightarrow> dflt | Some v \<Rightarrow> v)"

subsection \<open>The figure\<close>

text \<open>
  The plotting library is not part of the module. Its calls are modelled by what they
  record on the figure: the renderer's result is the axes it created and the settings
  it asked for. Arguments handed through (tick intervals, sizes, colours, line styles)
  are recorded as given; constant styling (line widths, font sizes) is left out.

  The library's own checks of its arguments are not modelled: it refuses a colour or a
  line style it does not know, a tick interval or a figure height that is not positive
  and a top margin that is not above the bottom one, and of these refusals the model
  has only the one of a grid of no columns. A run of the model that returns therefore
  stands for a run of the code on arguments that the library accepts.
\<close>

datatype locator = MultipleLocator real | LinearLocator int | LogLocator int

record twin_axis =
  tw_xlim :: "(real \<times> real) option"
  tw_xscale :: string
  tw_xinverted :: bool
  tw_spine_outward :: int
  tw_xlabel :: string
  tw_xlabel_color :: string
  tw_tick_color :: string
  tw_line_x :: "cell list"
  tw_line_y :: "cell list"
  tw_linestyle :: string
  tw_line_color :: string
  tw_major_locator :: "locator option"
  tw_major_formatter :: "string option"
  tw_xgrid :: bool
  tw_axisbelow :: bool

record track_axes =
  ax_ylim :: "(real \<times> real) option"
  ax_yinverted :: bool
  ax_ygrid_minor :: bool
  ax_ygrid_major :: bool
  ax_ymajor_locator :: "locator option"
  ax_yminor_locator :: "locator option"
  ax_xaxis_visible :: bool
  ax_ylabel :: "string option"
  ax_title :: "string option"
  ax_title_pad :: int
  ax_twins :: "twin_axis list"
  ax_hlines :: "real list"
  ax_texts :: "(real \<times> string) list"

record figure =
  fig_size :: "real \<times> real"
  fig_adjust_top :: real
  fig_axes :: "track_axes list"

text \<open>A fresh axes, and the fresh twin that \<^verbatim>\<open>ax.twiny()\<close> makes: nothing set yet.\<close>

definition new_axes :: track_axes where
  "new_axes = \<lparr>ax_ylim = None, ax_yinverted = False, ax_ygrid_minor = False,
     ax_ygrid_major = False, ax_ymajor_locator = None, ax_yminor_locator = None,
     ax_xaxis_visible = True, ax_ylabel = None, ax_title = None, ax_title_pad = 0,
     ax_twins = [], ax_hlines = [], ax_texts = []\<rparr>"

definition twiny :: twin_axis where
  "twiny = \<lparr>tw_xlim = None, tw_xscale = ''linear'', tw_xinverted = False,
     tw_spine_outward = 0, tw_xlabel = [], tw_xlabel_color = ''black'',
     tw_tick_color = ''black'', tw_line_x = [], tw_line_y = [], tw_linestyle = ''-'',
     tw_line_color = ''black'', tw_major_locator = None, tw_major_formatter = None,
     tw_xgrid = False, tw_axisbelow = False\<rparr>"

text \<open>
  Where the vertical gridlines of a curve axis stand. They are drawn at the ticks of
  the major locator of the horizontal axis when the grid is on, and there are none when
  it is off. \<^verbatim>\<open>LinearLocator(numticks=n)\<close> puts its ticks at \<^verbatim>\<open>numpy.linspace(vmin, vmax, n)\<close>
  for the view interval from \<open>vmin\<close> to \<open>vmax\<close> of the axis: \<open>n\<close> values, the first \<open>vmin\<close>,
  each a step of \<open>(vmax - vmin) / (n - 1)\<close> after the one before; a negative \<open>n\<close> is
  refused when the ticks are asked for. The ticks of the other locators, and of the
  locator an axis has when none is set, are not modelled: for them the positions are
  \<open>None\<close>. \<^verbatim>\<open>LogLocator(numticks=n)\<close> in particular takes \<open>n\<close> as a bound on the ticks it
  chooses among the powers of the base, not as their number.
\<close>

definition linspace :: "real \<Rightarrow> real \<Rightarrow> nat \<Rightarrow> real list" where
  "linspace start stop samples =
     (if samples = 1 then [start]
      else map (\<lambda>i. start + real i * ((stop - start) / real (samples - 1))) [0..<samples])"

definition tick_values :: "locator \<Rightarrow> real \<Rightarrow> real \<Rightarrow> (py_error + real list) option" where
  "tick_values loc vmin vmax =
     (case loc of
        LinearLocator numticks \<Rightarrow>
          Some (if numticks < 0 then Inl ValueError
                else Inr (linspace vmin vmax (nat numticks)))
      | MultipleLocator base \<Rightarrow> None
      | LogLocator numticks \<Rightarrow> None)"

definition vertical_gridlines :: "twin_axis \<Rightarrow> real \<Rightarrow> real \<Rightarrow> (py_error + real list) option" where
  "vertical_gridlines twin_ax vmin vmax =
     (if tw_xgrid twin_ax
      then (case tw_major_locator twin_ax of None \<Rightarrow> None
            | Some loc \<Rightarrow> tick_values loc vmin vmax)
      else Some (Inr []))"

text \<open>
  \<^verbatim>\<open>plt.subplots(nrows=1, ncols=n, ...)\<close> refuses a grid of no columns. For one column
  it hands back the axes itself, which lines 73-74 wrap into a list, so that \<open>axes\<close>
  is the list of the \<open>n\<close> axes in every case.
\<close>

definition subplots :: "nat \<Rightarrow> track_axes list prog" where
  "subplots ncols = (if ncols = 0 then raise_err ValueError
                     else return_val (replicate ncols new_axes))"

text \<open>Lines 80-86, for one axes.\<close>

definition general_settings :: "real \<Rightarrow> real \<Rightarrow> real \<Rightarrow> real \<Rightarrow> track_axes \<Rightarrow> track_axes" where
  "general_settings top_depth bottom_depth major_ticks_interval minor_ticks_interval ax =
     ax\<lparr>ax_ylim := Some (top_depth, bottom_depth),
        ax_yinverted := \<not> ax_yinverted ax,
        ax_ygrid_minor := True,
        ax_ygrid_major := True,
        ax_ymajor_locator := Some (MultipleLocator major_ticks_interval),
        ax_yminor_locator := Some (MultipleLocator minor_ticks_interval),
        ax_xaxis_visible := False\<rparr>"

text \<open>Line 89: \<^verbatim>\<open>axes[0].set_ylabel("Depth")\<close>.\<close>

definition label_first_axes :: "track_axes list \<Rightarrow> track_axes list prog" where
  "label_first_axes axes =
     (case axes of [] \<Rightarrow> raise_err IndexError
      | ax # rest \<Rightarrow> return_val (ax\<lparr>ax_ylabel := Some ''Depth''\<rparr> # rest))"

subsection \<open>The renderer: filtering and smoothing\<close>

text \<open>
  Line 65: the rows whose depth lies between the bounds, as a new object, copied.
  \<^verbatim>\<open>data[depth_column]\<close> is read for each of the two comparisons.
\<close>

definition getitem_mask :: "ref \<Rightarrow> bool list \<Rightarrow> ref prog" where
  "getitem_mask r msk = bind_prog (deref r) (\<lambda>t. new_object (select_rows t msk))"

definition depth_filter :: "ref \<Rightarrow> string \<Rightarrow> real \<Rightarrow> real \<Rightarrow> ref prog" where
  "depth_filter data depth_column top_depth bottom_depth =
     bind_prog (getitem data depth_column) (\<lambda>depth_ge.
     bind_prog (getitem data depth_column) (\<lambda>depth_le.
     bind_prog (getitem_mask data
        (and_mask (map (\<lambda>d. ge_scalar d top_depth) depth_ge)
                  (map (\<lambda>d. le_scalar d bottom_depth) depth_le))) (\<lambda>selected.
     df_copy selected)))"

text \<open>
  \<^verbatim>\<open>series.dropna()\<close>: the values that are not missing, and the labels of their rows.
\<close>

fun dropna_values :: "cell list \<Rightarrow> real list" where
  "dropna_values [] = []"
| "dropna_values (c # cs) =
     (case num c of None \<Rightarrow> dropna_values cs | Some x \<Rightarrow> x # dropna_values cs)"

definition dropna_index :: "int list \<Rightarrow> cell list \<Rightarrow> int list" where
  "dropna_index idx series = select (map (\<lambda>c. \<not> isna c) series) idx"

text \<open>
  \<^verbatim>\<open>df.loc[labels, c] = values\<close> with row labels and an array of floats: the row with the
  k-th label gets the k-th value. pandas addresses every row that carries a label, so
  a label that stands on no row or on several rows leaves the number of addressed rows
  different from the number of values, and the assignment raises. An integer cell that
  is given a value becomes a float cell: pandas before version 3 upcasts the column.
  pandas 3 refuses a float that is not a whole number for a column of integers; this
  is not modelled, and what is proved of the smoothing is stated for columns of floats.
\<close>

definition loc_set_labels :: "table \<Rightarrow> int list \<Rightarrow> string \<Rightarrow> real list \<Rightarrow> py_error + table" where
  "loc_set_labels t labels c vs =
     (if list_ex (\<lambda>l. l \<notin> set (index t)) labels then Inl KeyError
      else if list_ex (\<lambda>l. count_list (index t) l \<noteq> 1) labels \<or> length vs \<noteq> length labels
      then Inl ValueError
      else Inr (t\<lparr>cols := put_column (cols t) c
             (map2 (\<lambda>l old. case map_of (zip labels vs) l of None \<Rightarrow> old | Some v \<Rightarrow> Flt v)
                (index t)
                (case get_column t c of None \<Rightarrow> replicate (length (index t)) NaN
                 | Some series \<Rightarrow> series))\<rparr>))"

definition loc_setitem_labels :: "ref \<Rightarrow> int list \<Rightarrow> string \<Rightarrow> real list \<Rightarrow> unit prog" where
  "loc_setitem_labels r labels c vs =
     bind_prog (deref r) (\<lambda>t. case loc_set_labels t labels c vs of
                                 Inl e \<Rightarrow> raise_err e
                               | Inr t' \<Rightarrow> assign r t')"

text \<open>
  \<^verbatim>\<open>savgol_filter\<close> is scipy's; the renderer takes it as a parameter
  \<open>savgol_filter values window_length polyorder mode\<close>.
\<close>

type_synonym savgol = "real list \<Rightarrow> nat \<Rightarrow> nat \<Rightarrow> string \<Rightarrow> real list"

text \<open>Lines 98-103, for one curve of a track that asks for smoothing.\<close>

definition smooth_curve :: "savgol \<Rightarrow> ref \<Rightarrow> curve_config \<Rightarrow> unit prog" where
  "smooth_curve savgol_filter logs curve_info =
     (case cv_column curve_info of None \<Rightarrow> raise_err KeyError
      | Some col \<Rightarrow>
          bind_prog (deref logs) (\<lambda>t.
          if col \<in> set (columns t) then
            bind_prog (getitem logs col) (\<lambda>series.
            if length (dropna_values series) > 5 then
              loc_setitem_labels logs (dropna_index (index t) series) col
                (savgol_filter (dropna_values series) 5 3 ''nearest'')
            else return_val ())
          else return_val ()))"

text \<open>Lines 94-103, for one track.\<close>

definition smooth_track :: "savgol \<Rightarrow> ref \<Rightarrow> track_config \<Rightarrow> unit prog" where
  "smooth_track savgol_filter logs track_info =
     (let should_smooth = (dict_get (tk_smoothing track_info) ''no'' = ''yes'')
      in if should_smooth then
           (case tk_curves track_info of None \<Rightarrow> raise_err KeyError
            | Some curves \<Rightarrow> for_each (smooth_curve savgol_filter logs) curves)
         else return_val ())"


subsection \<open>The renderer: drawing\<close>

text \<open>
  Lines 128-172 for one curve whose column exists: the twin axis after the calls made
  on it, given the column's values \<open>xs\<close> and the depth column's values \<open>ys\<close>.
\<close>

definition draw_curve :: "int \<Rightarrow> bool \<Rightarrow> curve_config \<Rightarrow> string \<Rightarrow> cell list \<Rightarrow> cell list \<Rightarrow> twin_axis" where
  "draw_curve num_vertical_gridlines track_show_grid curve_info col xs ys =
     (let twin_ax = twiny;
          twin_ax = (case (cv_min_val curve_info, cv_max_val curve_info) of
                       (Some lo, Some hi) \<Rightarrow> twin_ax\<lparr>tw_xlim := Some (lo, hi)\<rparr>
                     | _ \<Rightarrow> twin_ax);
          is_log_scale = dict_get (cv_log_scale curve_info) False;
          twin_ax = (if is_log_scale then twin_ax\<lparr>tw_xscale := ''log''\<rparr> else twin_ax);
          twin_ax = (if dict_get (cv_invert_axis curve_info) False
                     then twin_ax\<lparr>tw_xinverted := \<not> tw_xinverted twin_ax\<rparr> else twin_ax);
          position_offset = dict_get (cv_position_offset curve_info) 0;
          twin_ax = twin_ax\<lparr>tw_spine_outward := position_offset\<rparr>;
          twin_ax = twin_ax\<lparr>tw_xlabel := dict_get (cv_label curve_info) col,
                            tw_xlabel_color := dict_get (cv_color curve_info) ''black''\<rparr>;
          twin_ax = twin_ax\<lparr>tw_tick_color := dict_get (cv_color curve_info) ''black''\<rparr>;
          twin_ax = twin_ax\<lparr>tw_line_x := xs, tw_line_y := ys,
                            tw_linestyle := dict_get (cv_linestyle curve_info) ''-'',
                            tw_line_color := dict_get (cv_color curve_info) ''black''\<rparr>;
          show_grid = dict_get (cv_show_grid curve_info) track_show_grid
      in if show_grid then
           (let locator = (if is_log_scale then LogLocator num_vertical_gridlines
                           else LinearLocator num_vertical_gridlines)
            in twin_ax\<lparr>tw_major_locator := Some locator, tw_major_formatter := Some ''%.3g'',
                       tw_xgrid := True, tw_axisbelow := True\<rparr>)
         else twin_ax)"

definition warning :: "string \<Rightarrow> string" where
  "warning col = ''Warning: Column '' @ [CHR 0x27] @ col @ [CHR 0x27]
                   @ '' not found in DataFrame. Skipping.''"

text \<open>
  Lines 120-172 for one curve: \<open>None\<close> when the curve is skipped by \<^verbatim>\<open>continue\<close>,
  the new twin axis otherwise.
\<close>

definition plot_curve :: "ref \<Rightarrow> string \<Rightarrow> int \<Rightarrow> bool \<Rightarrow> curve_config \<Rightarrow> twin_axis option prog" where
  "plot_curve logs depth_column num_vertical_gridlines track_show_grid curve_info =
     (case cv_column curve_info of None \<Rightarrow> raise_err KeyError
      | Some col \<Rightarrow>
          bind_prog (deref logs) (\<lambda>t.
          if col \<notin> set (columns t) then
            bind_prog (print_line (warning col)) (\<lambda>_. return_val None)
          else
            bind_prog (getitem logs col) (\<lambda>xs.
            bind_prog (getitem logs depth_column) (\<lambda>ys.
            return_val (Some (draw_curve num_vertical_gridlines track_show_grid
                                curve_info col xs ys))))))"

fun plot_curves :: "ref \<Rightarrow> string \<Rightarrow> int \<Rightarrow> bool \<Rightarrow> curve_config list \<Rightarrow> twin_axis list prog" where
  "plot_curves logs depth_column n g [] = return_val []"
| "plot_curves logs depth_column n g (curve_info # rest) =
     bind_prog (plot_curve logs depth_column n g curve_info) (\<lambda>twin.
     bind_prog (plot_curves logs depth_column n g rest) (\<lambda>twins.
     return_val (case twin of None \<Rightarrow> twins | Some twin_ax \<Rightarrow> twin_ax # twins)))"

text \<open>\<^verbatim>\<open>f'Track {track_idx + 1}'\<close> needs the decimal digits of a number.\<close>

fun str_nat :: "nat \<Rightarrow> string" where
  "str_nat n = (if n < 10 then [char_of (48 + n)]
                else str_nat (n div 10) @ [char_of (48 + n mod 10)])"

text \<open>Lines 107-172 for one track and its axes.\<close>

definition plot_track :: "ref \<Rightarrow> string \<Rightarrow> int \<Rightarrow> nat \<Rightarrow> track_config \<Rightarrow> track_axes \<Rightarrow> track_axes prog" where
  "plot_track logs depth_column num_vertical_gridlines track_idx track_info ax =
     (let curves = dict_get (tk_curves track_info) [];
          max_offset = (case map (\<lambda>curve. dict_get (cv_position_offset curve) 0) curves of
                          [] \<Rightarrow> 0 | x # xs \<Rightarrow> fold max xs x);
          ax = ax\<lparr>ax_title := Some (dict_get (tk_title track_info)
                                   (''Track '' @ str_nat (track_idx + 1))),
                  ax_title_pad := max_offset + 60\<rparr>;
          track_show_grid = dict_get (tk_show_grid track_info) True
      in bind_prog (plot_curves logs depth_column num_vertical_gridlines track_show_grid curves)
           (\<lambda>twins. return_val (ax\<lparr>ax_twins := ax_twins ax @ twins\<rparr>)))"

text \<open>The loop of line 106 over \<^verbatim>\<open>enumerate(tracks_config)\<close>, from \<open>track_idx\<close> on.\<close>

fun plot_tracks :: "ref \<Rightarrow> string \<Rightarrow> int \<Rightarrow> nat \<Rightarrow> track_config list \<Rightarrow> track_axes list \<Rightarrow> track_axes list prog" where
  "plot_tracks logs depth_column n track_idx [] axes = return_val axes"
| "plot_tracks logs depth_column n track_idx (track_info # rest) axes =
     (if track_idx < length axes then
        bind_prog (plot_track logs depth_column n track_idx track_info (axes ! track_idx))
          (\<lambda>ax. plot_tracks logs depth_column n (Suc track_idx) rest (axes[track_idx := ax]))
      else raise_err IndexError)"

text \<open>Lines 178-185 for one axes: a line and a label for each formation in range.\<close>

definition formation_lines :: "real \<Rightarrow> real \<Rightarrow> (string \<times> real) list \<Rightarrow> track_axes \<Rightarrow> track_axes" where
  "formation_lines top_depth bottom_depth items ax =
     fold (\<lambda>(formation_name, depth) ax.
             if depth \<ge> top_depth \<and> depth \<le> bottom_depth
             then ax\<lparr>ax_hlines := ax_hlines ax @ [depth],
                     ax_texts := ax_texts ax @ [(depth, formation_name)]\<rparr>
             else ax) items ax"

text \<open>Lines 67-187: everything after the filter, on the filtered copy \<open>logs\<close>.\<close>

definition render_logs :: "savgol \<Rightarrow> ref \<Rightarrow> track_config list \<Rightarrow> string \<Rightarrow> real \<Rightarrow> real \<Rightarrow> real \<Rightarrow> real \<Rightarrow> real \<Rightarrow> real \<Rightarrow> int \<Rightarrow> (string \<times> real) list option \<Rightarrow> figure prog" where
  "render_logs savgol_filter logs tracks_config depth_column top_depth bottom_depth
       figure_height subplot_adjust_top major_ticks_interval minor_ticks_interval
       num_vertical_gridlines formation =
     (let num_tracks = length tracks_config in
      bind_prog (subplots num_tracks) (\<lambda>axes.
      let axes = map (general_settings top_depth bottom_depth
                        major_ticks_interval minor_ticks_interval) axes in
      bind_prog (label_first_axes axes) (\<lambda>axes.
      bind_prog (for_each (smooth_track savgol_filter logs) tracks_config) (\<lambda>_.
      bind_prog (plot_tracks logs depth_column num_vertical_gridlines 0 tracks_config axes) (\<lambda>axes.
      let axes = (case formation of None \<Rightarrow> axes
                  | Some items \<Rightarrow> map (formation_lines top_depth bottom_depth items) axes)
      in return_val \<lparr>fig_size = (4 * real num_tracks, figure_height),
                      fig_adjust_top = subplot_adjust_top, fig_axes = axes\<rparr>)))))"

definition combo_plot :: "savgol \<Rightarrow> ref \<Rightarrow> track_config list \<Rightarrow> string \<Rightarrow> real \<Rightarrow> real \<Rightarrow> real \<Rightarrow> real \<Rightarrow> real \<Rightarrow> real \<Rightarrow> int \<Rightarrow> (string \<times> real) list option \<Rightarrow> figure prog" where
  "combo_plot savgol_filter data tracks_config depth_column top_depth bottom_depth
       figure_height subplot_adjust_top major_ticks_interval minor_ticks_interval
       num_vertical_gridlines formation =
     bind_prog (depth_filter data depth_column top_depth bottom_depth) (\<lambda>logs.
     render_logs savgol_filter logs tracks_config depth_column top_depth bottom_depth
       figure_height subplot_adjust_top major_ticks_interval minor_ticks_interval
       num_vertical_gridlines formation)"


subsection \<open>The claims' words\<close>

text \<open>
  The curves of a track (\<^verbatim>\<open>track_info.get('curves', [])\<close>), the column a curve names, and
  whether the table has that column.
\<close>

definition curves_of :: "track_config \<Rightarrow> curve_config list" where
  "curves_of track_info = dict_get (tk_curves track_info) []"

definition column_of :: "curve_config \<Rightarrow> string" where
  "column_of curve_info = dict_get (cv_column curve_info) []"

definition column_present :: "table \<Rightarrow> curve_config \<Rightarrow> bool" where
  "column_present t curve_info \<longleftrightarrow> column_of curve_info \<in> set (columns t)"

text \<open>
  Well-formed calls: the filter returns as many values as it is given, and, as the
  configuration types say, every track has its list of curves and every curve its column.
\<close>

definition savgol_ok :: "savgol \<Rightarrow> bool" where
  "savgol_ok savgol_filter \<longleftrightarrow> (\<forall>xs. length (savgol_filter xs 5 3 ''nearest'') = length xs)"

definition config_ok :: "track_config list \<Rightarrow> bool" where
  "config_ok tracks_config \<longleftrightarrow>
     list_all (\<lambda>track_info. case tk_curves track_info of None \<Rightarrow> False
                 | Some curves \<Rightarrow> list_all (\<lambda>curve_info. cv_column curve_info \<noteq> None) curves)
       tracks_config"


section \<open>Auxiliary functions of the proofs\<close>

text \<open>One zone's marks on a class column, and the marks of a list of zones in order.\<close>

definition mark :: "real \<times> real \<Rightarrow> cell list \<Rightarrow> cell list \<Rightarrow> cell list" where
  "mark iv dept cur = map2 (\<lambda>d x. if in_interval d iv then IntV 1 else x) dept cur"

fun mark_all :: "(real \<times> real) list \<Rightarrow> cell list \<Rightarrow> cell list \<Rightarrow> cell list" where
  "mark_all [] dept cur = cur"
| "mark_all (iv # zones) dept cur = mark_all zones dept (mark iv dept cur)"

text \<open>Values put back on the rows that are not missing, in row order.\<close>

fun scatter :: "cell list \<Rightarrow> real list \<Rightarrow> cell list" where
  "scatter [] vs = []"
| "scatter (c # cs) vs =
     (if isna c then c # scatter cs vs
      else (case vs of [] \<Rightarrow> c # scatter cs [] | v # vs' \<Rightarrow> Flt v # scatter cs vs'))"

text \<open>What lines 99-103 leave of a table, for one column, when they do not raise.\<close>

definition smooth_column :: "savgol \<Rightarrow> table \<Rightarrow> string \<Rightarrow> table" where
  "smooth_column savgol_filter t col =
     (case get_column t col of None \<Rightarrow> t
      | Some series \<Rightarrow>
          if length (dropna_values series) > 5
          then t\<lparr>cols := put_column (cols t) col
                   (scatter series (savgol_filter (dropna_values series) 5 3 ''nearest''))\<rparr>
          else t)"

text \<open>The smoothing of a list of curves in order, and the curves that are smoothed.\<close>

definition smooth_curves :: "savgol \<Rightarrow> curve_config list \<Rightarrow> table \<Rightarrow> table" where
  "smooth_curves savgol_filter curves t =
     fold (\<lambda>curve_info t. case cv_column curve_info of None \<Rightarrow> t
                            | Some col \<Rightarrow> smooth_column savgol_filter t col) curves t"

definition smoothed_curves :: "track_config list \<Rightarrow> curve_config list" where
  "smoothed_curves tracks_config =
     concat (map (\<lambda>track_info. if dict_get (tk_smoothing track_info) ''no'' = ''yes''
                                then dict_get (tk_curves track_info) [] else []) tracks_config)"

text \<open>
  When lines 99-103 do not raise for a column: either there is nothing to smooth, or
  every row that holds a value has a label that no other row has and the filter returns
  as many values as it is given. Then the outcome of the smoothing loops, as a value:
  the table they leave, or the error they stop with (a curve without its column key, a
  smoothed track without its list of curves, an assignment that raises).
\<close>

definition smooth_column_ok :: "savgol \<Rightarrow> table \<Rightarrow> string \<Rightarrow> bool" where
  "smooth_column_ok savgol_filter t col =
     (case get_column t col of None \<Rightarrow> True
      | Some series \<Rightarrow>
          length (dropna_values series) > 5 \<longrightarrow>
            list_all (\<lambda>l. count_list (index t) l = 1) (dropna_index (index t) series)
            \<and> length (savgol_filter (dropna_values series) 5 3 ''nearest'')
                = length (dropna_values series))"

fun smooth_curves_result :: "savgol \<Rightarrow> curve_config list \<Rightarrow> table \<Rightarrow> py_error + table" where
  "smooth_curves_result savgol_filter [] t = Inr t"
| "smooth_curves_result savgol_filter (curve_info # rest) t =
     (case cv_column curve_info of None \<Rightarrow> Inl KeyError
      | Some col \<Rightarrow>
          if smooth_column_ok savgol_filter t col
          then smooth_curves_result savgol_filter rest (smooth_column savgol_filter t col)
          else Inl ValueError)"

fun smooth_tracks_result :: "savgol \<Rightarrow> track_config list \<Rightarrow> table \<Rightarrow> py_error + table" where
  "smooth_tracks_result savgol_filter [] t = Inr t"
| "smooth_tracks_result savgol_filter (track_info # rest) t =
     (if dict_get (tk_smoothing track_info) ''no'' = ''yes'' then
        (case tk_curves track_info of None \<Rightarrow> Inl KeyError
         | Some curves \<Rightarrow>
             (case smooth_curves_result savgol_filter curves t of Inl e \<Rightarrow> Inl e
              | Inr t' \<Rightarrow> smooth_tracks_result savgol_filter rest t'))
      else smooth_tracks_result savgol_filter rest t)"

text \<open>The drawing loop reads the column key of every curve of every track.\<close>

definition tracks_plot_ok :: "track_config list \<Rightarrow> bool" where
  "tracks_plot_ok tracks_config \<longleftrightarrow>
     list_all (\<lambda>track_info. list_all (\<lambda>curve_info. cv_column curve_info \<noteq> None)
                              (curves_of track_info)) tracks_config"

text \<open>The boolean series of line 65.\<close>

definition depth_mask :: "cell list \<Rightarrow> real \<Rightarrow> real \<Rightarrow> bool list" where
  "depth_mask depth top_depth bottom_depth =
     and_mask (map (\<lambda>d. ge_scalar d top_depth) depth) (map (\<lambda>d. le_scalar d bottom_depth) depth)"

text \<open>The twin axis, the warning and the axes that the drawing loops produce.\<close>

definition curve_twin :: "table \<Rightarrow> cell list \<Rightarrow> int \<Rightarrow> bool \<Rightarrow> curve_config \<Rightarrow> twin_axis list" where
  "curve_twin t ys n g curve_info =
     (case cv_column curve_info of None \<Rightarrow> []
      | Some col \<Rightarrow> (case get_column t col of None \<Rightarrow> []
                     | Some xs \<Rightarrow> [draw_curve n g curve_info col xs ys]))"

definition curve_warning :: "table \<Rightarrow> curve_config \<Rightarrow> string list" where
  "curve_warning t curve_info =
     (case cv_column curve_info of None \<Rightarrow> []
      | Some col \<Rightarrow> (case get_column t col of None \<Rightarrow> [warning col] | Some xs \<Rightarrow> []))"

definition track_warnings :: "table \<Rightarrow> track_config \<Rightarrow> string list" where
  "track_warnings t track_info = concat (map (curve_warning t) (dict_get (tk_curves track_info) []))"

definition plotted_track :: "table \<Rightarrow> cell list \<Rightarrow> int \<Rightarrow> nat \<Rightarrow> track_config \<Rightarrow> track_axes \<Rightarrow> track_axes" where
  "plotted_track t ys n track_idx track_info ax =
     (let curves = dict_get (tk_curves track_info) [];
          max_offset = (case map (\<lambda>curve. dict_get (cv_position_offset curve) 0) curves of
                          [] \<Rightarrow> 0 | x # xs \<Rightarrow> fold max xs x);
          ax = ax\<lparr>ax_title := Some (dict_get (tk_title track_info)
                                   (''Track '' @ str_nat (track_idx + 1))),
                  ax_title_pad := max_offset + 60\<rparr>
      in ax\<lparr>ax_twins := ax_twins ax
             @ concat (map (curve_twin t ys n (dict_get (tk_show_grid track_info) True)) curves)\<rparr>)"

fun plotted_tracks :: "table \<Rightarrow> cell list \<Rightarrow> int \<Rightarrow> nat \<Rightarrow> track_config list \<Rightarrow> track_axes list \<Rightarrow> track_axes list" where
  "plotted_tracks t ys n track_idx [] axes = axes"
| "plotted_tracks t ys n track_idx (track_info # rest) axes =
     plotted_tracks t ys n (Suc track_idx) rest
       (axes[track_idx := plotted_track t ys n track_idx track_info (axes ! track_idx)])"

text \<open>The axes after lines 70-89, and the figure returned.\<close>

definition prepared_axes :: "nat \<Rightarrow> real \<Rightarrow> real \<Rightarrow> real \<Rightarrow> real \<Rightarrow> track_axes list" where
  "prepared_axes num_tracks top_depth bottom_depth major_ticks_interval minor_ticks_interval =
     (case map (general_settings top_depth bottom_depth major_ticks_interval minor_ticks_interval)
             (replicate num_tracks new_axes) of
        [] \<Rightarrow> []
      | ax # rest \<Rightarrow> ax\<lparr>ax_ylabel := Some ''Depth''\<rparr> # rest)"

definition rendered_figure :: "table \<Rightarrow> cell list \<Rightarrow> track_config list \<Rightarrow> real \<Rightarrow> real \<Rightarrow> real \<Rightarrow> real \<Rightarrow> real \<Rightarrow> real \<Rightarrow> int \<Rightarrow> (string \<times> real) list option \<Rightarrow> figure" where
  "rendered_figure t ys tracks_config top_depth bottom_depth figure_height subplot_adjust_top
       major_ticks_interval minor_ticks_interval num_vertical_gridlines formation =
     \<lparr>fig_size = (4 * real (length tracks_config), figure_height),
      fig_adjust_top = subplot_adjust_top,
      fig_axes =
        (let axes = plotted_tracks t ys num_vertical_gridlines 0 tracks_config
                      (prepared_axes (length tracks_config) top_depth bottom_depth
                         major_ticks_interval minor_ticks_interval)
         in case formation of None \<Rightarrow> axes
            | Some items \<Rightarrow> map (formation_lines top_depth bottom_depth items) axes)\<rparr>"

text \<open>
  What the calls of a program leave of the objects \<open>h\<close> that exist before it: they stay
  where they are, unchanged, and the value returned satisfies \<open>R\<close>.
\<close>

definition frame_ret :: "table list \<Rightarrow> 'a prog \<Rightarrow> ('a \<Rightarrow> bool) \<Rightarrow> bool" where
  "frame_ret h m R \<longleftrightarrow>
     (\<forall>s. prefix h (heap s) \<longrightarrow>
        prefix h (heap (snd (m s))) \<and> (\<forall>x. fst (m s) = Inr x \<longrightarrow> R x))"

text \<open>
  A filter for the examples: the Savitzky-Golay weights of a window of five values and a
  cubic, (-3, 12, 17, 12, -3) / 35, over the values extended at both ends by their
  nearest value.
\<close>

definition nearest_value :: "real list \<Rightarrow> int \<Rightarrow> real" where
  "nearest_value xs j = xs ! nat (max 0 (min j (int (length xs) - 1)))"

definition example_savgol :: savgol where
  "example_savgol xs window_length polyorder mode =
     map (\<lambda>i. (- 3 * nearest_value xs (int i - 2) + 12 * nearest_value xs (int i - 1)
                + 17 * nearest_value xs (int i) + 12 * nearest_value xs (int i + 1)
                - 3 * nearest_value xs (int i + 2)) / 35) [0..<length xs]"

text \<open>The table of the specification's example, and the same table already labelled.\<close>

abbreviation example_table :: table where
  "example_table \<equiv> \<lparr>index = [0, 1, 2, 3, 4],
     cols = [(''DEPT'', [Flt 3690, Flt 3700, Flt 3750, Flt 3999, Flt 4010])]\<rparr>"

abbreviation example_labelled :: table where
  "example_labelled \<equiv> \<lparr>index = [0, 1, 2, 3, 4],
     cols = [(''DEPT'', [Flt 3690, Flt 3700, Flt 3750, Flt 3999, Flt 4010]),
             (''hydrocarbon_formation_class'', [IntV 0, IntV 1, IntV 1, IntV 1, IntV 0])]\<rparr>"

text \<open>A table with a log, its rows between 3700 and 4000, and a noisy log with its smoothing.\<close>

abbreviation example_logs :: table where
  "example_logs \<equiv> \<lparr>index = [0, 1, 2, 3, 4],
     cols = [(''DEPT'', [Flt 3690, Flt 3700, Flt 3750, Flt 3999, Flt 4010]),
             (''GR'', [Flt 50, Flt 60, NaN, Flt 80, Flt 90])]\<rparr>"

abbreviation example_filtered :: table where
  "example_filtered \<equiv> \<lparr>index = [1, 2, 3],
     cols = [(''DEPT'', [Flt 3700, Flt 3750, Flt 3999]),
             (''GR'', [Flt 60, NaN, Flt 80])]\<rparr>"

abbreviation example_noisy :: table where
  "example_noisy \<equiv> \<lparr>index = [0, 1, 2, 3, 4, 5, 6, 7],
     cols = [(''DEPT'', [Flt 3700, Flt 3710, Flt 3720, Flt 3730, Flt 3740, Flt 3750, Flt 3760, Flt 3770]),
             (''GR'', [Flt 1, Flt 2, NaN, Flt 4, Flt 8, Flt 16, Flt 32, Flt 64])]\<rparr>"



text \<open>Curves and tracks for the examples.\<close>

abbreviation plain_curve :: "string \<Rightarrow> curve_config" where
  "plain_curve col \<equiv> \<lparr>cv_column = Some col, cv_label = None, cv_color = None,
     cv_linestyle = None, cv_min_val = None, cv_max_val = None, cv_log_scale = None,
     cv_invert_axis = None, cv_position_offset = None, cv_show_grid = None\<rparr>"

abbreviation example_curves :: "curve_config list" where
  "example_curves \<equiv>
     [(plain_curve ''GR'')\<lparr>cv_label := Some ''GR scaled'', cv_min_val := Some 0,
                           cv_max_val := Some 150\<rparr>,
      (plain_curve ''GR'')\<lparr>cv_label := Some ''GR log'', cv_min_val := Some 1,
                           cv_log_scale := Some True\<rparr>,
      (plain_curve ''GR'')\<lparr>cv_show_grid := Some False\<rparr>,
      plain_curve ''NPHI'']"

abbreviation example_tracks :: "track_config list" where
  "example_tracks \<equiv>
     [\<lparr>tk_title = Some ''Gamma'', tk_show_grid = None, tk_smoothing = None,
       tk_curves = Some example_curves\<rparr>,
      \<lparr>tk_title = None, tk_show_grid = Some False, tk_smoothing = Some ''yes'',
       tk_curves = Some [plain_curve ''NPHI'', plain_curve ''RHOB'']\<rparr>]"

section \<open>Programs and their runs\<close>


lemma bind_return [simp]: "bind_prog (return_val x) f = f x"
  by (simp add: bind_prog_def return_val_def)

lemma bind_raise [simp]: "bind_prog (raise_err e) f = raise_err e"
  by (simp add: bind_prog_def raise_err_def)

lemma bind_run_ok: "m s = (Inr x, s') \<Longrightarrow> bind_prog m f s = f x s'"
  by (simp add: bind_prog_def)

lemma map_of_put_column: "map_of (put_column cs c vs) c' = (if c' = c then Some vs else map_of cs c')"
  by (induction cs c vs rule: put_column.induct) auto

lemma put_column_twice: "put_column (put_column cs c a) c b = put_column cs c b"
  by (induction cs c a rule: put_column.induct) auto

lemma put_column_same: "map_of cs c = Some vs \<Longrightarrow> put_column cs c vs = cs"
  by (induction cs c vs rule: put_column.induct) (auto split: if_splits)

lemma names_put_column:
  "map fst (put_column cs c vs) = (if c \<in> set (map fst cs) then map fst cs else map fst cs @ [c])"
  by (induction cs c vs rule: put_column.induct) auto

lemma getattr_run:
  "r < length (heap s) \<Longrightarrow> get_column (heap s ! r) c = Some vs \<Longrightarrow> getattr r c s = (Inr vs, s)"
  by (simp add: getattr_def bind_prog_def deref_def return_val_def)

lemma getattr_missing:
  "r < length (heap s) \<Longrightarrow> get_column (heap s ! r) c = None \<Longrightarrow> getattr r c s = (Inl AttributeError, s)"
  by (simp add: getattr_def bind_prog_def deref_def raise_err_def)

lemma loc_setitem_mask_run:
  "r < length (heap s) \<Longrightarrow>
   loc_setitem_mask r msk c v s = (Inr (), s\<lparr>heap := (heap s)[r := loc_set_mask (heap s ! r) msk c v]\<rparr>)"
  by (simp add: loc_setitem_mask_def bind_prog_def deref_def assign_def)

lemma setitem_scalar_run:
  "r < length (heap s) \<Longrightarrow>
   setitem_scalar r c v s = (Inr (), s\<lparr>heap := (heap s)[r := set_scalar (heap s ! r) c v]\<rparr>)"
  by (simp add: setitem_scalar_def bind_prog_def deref_def assign_def)

lemma df_copy_run:
  "r < length (heap s) \<Longrightarrow> df_copy r s = (Inr (length (heap s)), s\<lparr>heap := heap s @ [heap s ! r]\<rparr>)"
  by (simp add: df_copy_def bind_prog_def deref_def new_object_def)

lemma zone_mask: "(ge_scalar d (fst iv) \<and> le_scalar d (snd iv)) = in_interval d iv"
  by (cases d) (auto simp: ge_scalar_def le_scalar_def in_interval_def)


lemma mark_mask:
  "map2 (\<lambda>m x. if m then IntV 1 else x)
      (and_mask (map (\<lambda>d. ge_scalar d a) dept) (map (\<lambda>d. le_scalar d b) dept)) cur
     = mark (a, b) dept cur"
  unfolding mark_def and_mask_def
proof (induction dept arbitrary: cur)
  case Nil
  show ?case by simp
next
  case (Cons d dept)
  then show ?case using zone_mask [of d "(a, b)"] by (cases cur) simp_all
qed

lemma mark_zone_run:
  assumes "r < length (heap s)" "get_column (heap s ! r) ''DEPT'' = Some dept"
    "get_column (heap s ! r) ''hydrocarbon_formation_class'' = Some cur"
  shows "mark_zone r iv s =
    (Inr (), s\<lparr>heap := (heap s)[r := (heap s ! r)\<lparr>cols := put_column (cols (heap s ! r))
        ''hydrocarbon_formation_class'' (mark iv dept cur)\<rparr>]\<rparr>)"
  using assms
  by (cases iv) (simp add: mark_zone_def getattr_run bind_run_ok loc_setitem_mask_run
        loc_set_mask_def mark_mask)


lemma get_column_put:
  "get_column (t\<lparr>cols := put_column (cols t) c vs\<rparr>) c' = (if c' = c then Some vs else get_column t c')"
  by (simp add: get_column_def map_of_put_column)

lemma for_each_mark_zone:
  assumes "r < length (heap s)" "get_column (heap s ! r) ''DEPT'' = Some dept"
    "get_column (heap s ! r) ''hydrocarbon_formation_class'' = Some cur"
  shows "for_each (mark_zone r) zones s =
    (Inr (), s\<lparr>heap := (heap s)[r := (heap s ! r)\<lparr>cols := put_column (cols (heap s ! r))
        ''hydrocarbon_formation_class'' (mark_all zones dept cur)\<rparr>]\<rparr>)"
  using assms
proof (induction zones arbitrary: s cur)
  case Nil
  then show ?case
    by (simp add: return_val_def put_column_same get_column_def)
next
  case (Cons iv zones)
  let ?t = "(heap s ! r)\<lparr>cols := put_column (cols (heap s ! r))
        ''hydrocarbon_formation_class'' (mark iv dept cur)\<rparr>"
  let ?s = "s\<lparr>heap := (heap s)[r := ?t]\<rparr>"
  have step: "mark_zone r iv s = (Inr (), ?s)"
    using Cons.prems by (rule mark_zone_run)
  have r: "r < length (heap ?s)" using Cons.prems(1) by simp
  have t: "heap ?s ! r = ?t" using Cons.prems(1) by simp
  have d: "get_column (heap ?s ! r) ''DEPT'' = Some dept"
    unfolding t using Cons.prems(2) by (simp add: get_column_put)
  have c: "get_column (heap ?s ! r) ''hydrocarbon_formation_class'' = Some (mark iv dept cur)"
    unfolding t by (simp add: get_column_put)
  have "for_each (mark_zone r) (iv # zones) s = for_each (mark_zone r) zones ?s"
    using step by (simp add: bind_prog_def)
  also have "\<dots> = (Inr (), ?s\<lparr>heap := (heap ?s)[r := (heap ?s ! r)\<lparr>cols := put_column (cols (heap ?s ! r))
        ''hydrocarbon_formation_class'' (mark_all zones dept (mark iv dept cur))\<rparr>]\<rparr>)"
    by (rule Cons.IH [OF r d c])
  also have "\<dots> = (Inr (), s\<lparr>heap := (heap s)[r := (heap s ! r)\<lparr>cols := put_column (cols (heap s ! r))
        ''hydrocarbon_formation_class'' (mark_all (iv # zones) dept cur)\<rparr>]\<rparr>)"
    unfolding t by (simp add: put_column_twice)
  finally show ?case .
qed


lemma length_mark: "length cur = length dept \<Longrightarrow> length (mark iv dept cur) = length dept"
  by (simp add: mark_def)

lemma mark_all_zone_class:
  "length cur = length dept \<Longrightarrow>
   mark_all zones dept cur =
     map2 (\<lambda>d x. if \<exists>iv \<in> set zones. in_interval d iv then IntV 1 else x) dept cur"
proof (induction zones arbitrary: cur)
  case Nil
  then show ?case by (intro nth_equalityI) auto
next
  case (Cons iv zones)
  have "mark_all (iv # zones) dept cur =
      map2 (\<lambda>d x. if \<exists>iv \<in> set zones. in_interval d iv then IntV 1 else x) dept (mark iv dept cur)"
    using Cons.IH [of "mark iv dept cur"] Cons.prems by (simp add: length_mark)
  also have "\<dots> = map2 (\<lambda>d x. if \<exists>iv' \<in> set (iv # zones). in_interval d iv' then IntV 1 else x) dept cur"
    using Cons.prems by (intro nth_equalityI) (auto simp: mark_def)
  finally show ?case .
qed

lemma mark_all_zeros:
  "length dept = n \<Longrightarrow> mark_all zones dept (replicate n (IntV 0)) = map (zone_class zones) dept"
  by (simp add: mark_all_zone_class) (intro nth_equalityI, auto simp: zone_class_def)

lemma add_productive_zones_run:
  assumes "data < length (heap s)" "get_column (heap s ! data) ''DEPT'' = Some dept"
  shows "add_productive_zones data zones s =
    (Inr (length (heap s)),
     s\<lparr>heap := heap s @ [(heap s ! data)\<lparr>cols := put_column (cols (heap s ! data))
        ''hydrocarbon_formation_class''
        (mark_all zones dept (replicate (length (index (heap s ! data))) (IntV 0)))\<rparr>]\<rparr>)"
proof -
  let ?t = "heap s ! data"
  let ?r = "length (heap s)"
  let ?z = "replicate (length (index ?t)) (IntV 0)"
  let ?s1 = "s\<lparr>heap := heap s @ [?t]\<rparr>"
  let ?t2 = "?t\<lparr>cols := put_column (cols ?t) ''hydrocarbon_formation_class'' ?z\<rparr>"
  let ?s2 = "s\<lparr>heap := heap s @ [?t2]\<rparr>"
  have c: "df_copy data s = (Inr ?r, ?s1)" using assms(1) by (rule df_copy_run)
  have i: "setitem_scalar ?r ''hydrocarbon_formation_class'' (IntV 0) ?s1 = (Inr (), ?s2)"
    by (simp add: setitem_scalar_run set_scalar_def)
  have r: "?r < length (heap ?s2)" by simp
  have t: "heap ?s2 ! ?r = ?t2" by simp
  have d: "get_column (heap ?s2 ! ?r) ''DEPT'' = Some dept"
    unfolding t using assms(2) by (simp add: get_column_put)
  have z: "get_column (heap ?s2 ! ?r) ''hydrocarbon_formation_class'' = Some ?z"
    unfolding t by (simp add: get_column_put)
  have l: "for_each (mark_zone ?r) zones ?s2 =
    (Inr (), ?s2\<lparr>heap := (heap ?s2)[?r := (heap ?s2 ! ?r)\<lparr>cols := put_column (cols (heap ?s2 ! ?r))
        ''hydrocarbon_formation_class'' (mark_all zones dept ?z)\<rparr>]\<rparr>)"
    by (rule for_each_mark_zone [OF r d z])
  have l': "for_each (mark_zone ?r) zones ?s2 =
    (Inr (), s\<lparr>heap := heap s @ [?t\<lparr>cols := put_column (cols ?t)
        ''hydrocarbon_formation_class'' (mark_all zones dept ?z)\<rparr>]\<rparr>)"
    unfolding l t by (simp add: put_column_twice)
  show ?thesis
    unfolding add_productive_zones_def using c i l'
    by (simp add: bind_prog_def return_val_def)
qed

lemma add_productive_zones_no_zones:
  assumes "data < length (heap s)"
  shows "add_productive_zones data [] s =
    (Inr (length (heap s)),
     s\<lparr>heap := heap s @ [set_scalar (heap s ! data) ''hydrocarbon_formation_class'' (IntV 0)]\<rparr>)"
  unfolding add_productive_zones_def using df_copy_run [OF assms]
  by (simp add: bind_prog_def return_val_def setitem_scalar_run)

lemma add_productive_zones_no_DEPT:
  assumes "data < length (heap s)" "get_column (heap s ! data) ''DEPT'' = None" "zones \<noteq> []"
  shows "fst (add_productive_zones data zones s) = Inl AttributeError"
proof -
  obtain iv rest where z: "zones = iv # rest" using assms(3) by (cases zones) auto
  let ?s2 = "s\<lparr>heap := heap s @ [set_scalar (heap s ! data) ''hydrocarbon_formation_class'' (IntV 0)]\<rparr>"
  have "get_column (heap ?s2 ! length (heap s)) ''DEPT'' = None"
    using assms(2) by (simp add: set_scalar_def get_column_put)
  then have "getattr (length (heap s)) ''DEPT'' ?s2 = (Inl AttributeError, ?s2)"
    by (intro getattr_missing) simp_all
  then have "mark_zone (length (heap s)) iv ?s2 = (Inl AttributeError, ?s2)"
    by (cases iv) (simp add: mark_zone_def bind_prog_def)
  then show ?thesis
    unfolding add_productive_zones_def z using df_copy_run [OF assms(1)]
    by (simp add: bind_prog_def return_val_def setitem_scalar_run)
qed

lemma add_productive_zones_dangling:
  "\<not> data < length (heap s) \<Longrightarrow> add_productive_zones data zones s = (Inl DanglingRef, s)"
  by (simp add: add_productive_zones_def df_copy_def bind_prog_def deref_def)


lemma wf_column_length:
  "wf_table t \<Longrightarrow> get_column t c = Some vs \<Longrightarrow> length vs = length (index t)"
  by (auto simp: wf_table_def get_column_def list_all_iff dest!: map_of_SomeD)

lemma columns_put:
  "columns (t\<lparr>cols := put_column (cols t) c vs\<rparr>) =
     (if c \<in> set (columns t) then columns t else columns t @ [c])"
  by (simp add: columns_def names_put_column)

subsection \<open>The renderer's runs\<close>

lemma select_Cons [simp]:
  "select (b # m) (x # xs) = (if b then x # select m xs else select m xs)"
  by (simp add: select_def)

lemma select_Nil [simp]: "select [] xs = []" "select m [] = []"
  by (simp_all add: select_def)

lemma set_select: "set (select m xs) \<subseteq> set xs"
  by (auto simp: select_def dest: set_zip_rightD)

lemma distinct_select: "distinct xs \<Longrightarrow> distinct (select m xs)"
proof (induction xs arbitrary: m)
  case Nil
  show ?case by simp
next
  case (Cons x xs)
  show ?case
  proof (cases m)
    case Nil
    then show ?thesis by simp
  next
    case (Cons b m')
    then show ?thesis using Cons.prems Cons.IH [of m'] set_select [of m' xs] by auto
  qed
qed

lemma select_range:
  "select (and_mask (map (\<lambda>d. ge_scalar d a) ds) (map (\<lambda>d. le_scalar d b) ds)) xs
     = map fst (filter (\<lambda>(x, d). in_interval d (a, b)) (zip xs ds))"
proof (induction ds arbitrary: xs)
  case Nil
  show ?case by (simp add: and_mask_def)
next
  case (Cons d ds)
  show ?case
  proof (cases xs)
    case Nil
    then show ?thesis by simp
  next
    case (Cons x xs')
    then show ?thesis
      using Cons.IH [of xs'] zone_mask [of d "(a, b)"] by (simp add: and_mask_def)
  qed
qed

lemma isna_num: "isna c \<longleftrightarrow> num c = None"
  by (cases c) simp_all

lemma length_dropna:
  "length idx = length series \<Longrightarrow> length (dropna_index idx series) = length (dropna_values series)"
  unfolding dropna_index_def
proof (induction series arbitrary: idx)
  case Nil
  show ?case by simp
next
  case (Cons c cs)
  then obtain l ls where "idx = l # ls" by (cases idx) auto
  with Cons show ?case by (cases c) simp_all
qed

lemma length_scatter [simp]: "length (scatter cs vs) = length cs"
  by (induction cs vs rule: scatter.induct) (auto split: list.splits)



lemma assign_scatter:
  assumes "distinct idx" "length idx = length series" "length vs = length (dropna_values series)"
  shows "map2 (\<lambda>l old. case map_of (zip (dropna_index idx series) vs) l of
                          None \<Rightarrow> old | Some v \<Rightarrow> Flt v) idx series
         = scatter series vs"
  using assms
proof (induction series arbitrary: idx vs)
  case Nil
  then show ?case by simp
next
  case (Cons c cs)
  then obtain l ls where idx: "idx = l # ls" by (cases idx) auto
  have d: "distinct ls" "l \<notin> set ls" "length ls = length cs" using Cons.prems idx by auto
  show ?case
  proof (cases "isna c")
    case True
    have lab: "dropna_index idx (c # cs) = dropna_index ls cs"
      using True by (simp add: idx dropna_index_def)
    have "l \<notin> set (dropna_index ls cs)"
      using d(2) set_select [of "map (\<lambda>c. \<not> isna c) cs" ls] by (auto simp: dropna_index_def)
    then have "l \<notin> fst ` set (zip (dropna_index ls cs) vs)"
      by (auto dest: set_zip_leftD)
    then have n: "map_of (zip (dropna_index ls cs) vs) l = None"
      by (simp add: map_of_eq_None_iff)
    have v: "length vs = length (dropna_values cs)"
      using Cons.prems(3) True by (simp add: isna_num)
    show ?thesis
      unfolding lab using True n Cons.IH [OF d(1,3) v] by (simp add: idx)
  next
    case False
    then obtain x where x: "num c = Some x" by (cases c) auto
    then obtain v vs' where vs: "vs = v # vs'" using Cons.prems(3) by (cases vs) auto
    have lab: "dropna_index idx (c # cs) = l # dropna_index ls cs"
      using False by (simp add: idx dropna_index_def)
    have v': "length vs' = length (dropna_values cs)"
      using Cons.prems(3) x vs by simp
    have "map2 (\<lambda>l' old. case map_of (zip (l # dropna_index ls cs) (v # vs')) l' of
                          None \<Rightarrow> old | Some v \<Rightarrow> Flt v) ls cs
        = map2 (\<lambda>l' old. case map_of (zip (dropna_index ls cs) vs') l' of
                          None \<Rightarrow> old | Some v \<Rightarrow> Flt v) ls cs"
      using d(2) by (intro map_cong refl) (auto dest: set_zip_leftD)
    then show ?thesis
      unfolding lab vs using False Cons.IH [OF d(1,3) v'] by (simp add: idx)
  qed
qed

lemma count_list_distinct: "distinct xs \<Longrightarrow> x \<in> set xs \<Longrightarrow> count_list xs x = 1"
  by (induction xs) (auto simp: count_list_0_iff)

lemma get_column_in_columns: "get_column t c \<noteq> None \<longleftrightarrow> c \<in> set (columns t)"
  by (simp add: get_column_def columns_def map_of_eq_None_iff)

lemma loc_set_labels_scatter:
  assumes "wf_table t" "distinct (index t)" "get_column t col = Some series"
    "length vs = length (dropna_values series)"
  shows "loc_set_labels t (dropna_index (index t) series) col vs
           = Inr (t\<lparr>cols := put_column (cols t) col (scatter series vs)\<rparr>)"
proof -
  let ?labels = "dropna_index (index t) series"
  have len: "length (index t) = length series"
    using wf_column_length [OF assms(1,3)] by simp
  have sub: "set ?labels \<subseteq> set (index t)"
    unfolding dropna_index_def by (rule set_select)
  then have 1: "\<not> list_ex (\<lambda>l. l \<notin> set (index t)) ?labels"
    by (auto simp: list_ex_iff)
  have 2: "\<not> list_ex (\<lambda>l. count_list (index t) l \<noteq> 1) ?labels"
    using sub count_list_distinct [OF assms(2)] by (auto simp: list_ex_iff)
  have 3: "length vs = length ?labels"
    using assms(4) length_dropna [OF len] by simp
  show ?thesis
    unfolding loc_set_labels_def
    using 1 2 3 assign_scatter [OF assms(2) len assms(4)] assms(3) by simp
qed

lemma getitem_run:
  "r < length (heap s) \<Longrightarrow> get_column (heap s ! r) c = Some vs \<Longrightarrow> getitem r c s = (Inr vs, s)"
  by (simp add: getitem_def bind_prog_def deref_def return_val_def)

lemma getitem_missing:
  "r < length (heap s) \<Longrightarrow> get_column (heap s ! r) c = None \<Longrightarrow> getitem r c s = (Inl KeyError, s)"
  by (simp add: getitem_def bind_prog_def deref_def raise_err_def)

lemma smooth_curve_run:
  assumes "logs < length (heap s)" "wf_table (heap s ! logs)" "distinct (index (heap s ! logs))"
    "savgol_ok savgol_filter" "cv_column curve_info = Some col"
  shows "smooth_curve savgol_filter logs curve_info s
           = (Inr (), s\<lparr>heap := (heap s)[logs := smooth_column savgol_filter (heap s ! logs) col]\<rparr>)"
proof (cases "get_column (heap s ! logs) col")
  case None
  then have "col \<notin> set (columns (heap s ! logs))"
    using get_column_in_columns [of "heap s ! logs" col] by simp
  then show ?thesis
    using assms(1,5) None
    by (simp add: smooth_curve_def bind_prog_def deref_def smooth_column_def return_val_def)
next
  case (Some series)
  then have c: "col \<in> set (columns (heap s ! logs))"
    using get_column_in_columns [of "heap s ! logs" col] by simp
  show ?thesis
  proof (cases "length (dropna_values series) > 5")
    case False
    then show ?thesis
      using assms(1,5) Some c getitem_run [OF assms(1) Some]
      by (simp add: smooth_curve_def bind_prog_def deref_def smooth_column_def return_val_def)
  next
    case True
    have l: "length (savgol_filter (dropna_values series) 5 3 ''nearest'') = length (dropna_values series)"
      using assms(4) by (simp add: savgol_ok_def)
    show ?thesis
      using assms(1,5) Some c True getitem_run [OF assms(1) Some]
        loc_set_labels_scatter [OF assms(2,3) Some l]
      by (simp add: smooth_curve_def bind_prog_def deref_def smooth_column_def
          loc_setitem_labels_def assign_def)
  qed
qed

lemma list_all_put_column:
  "list_all P cs \<Longrightarrow> P (c, vs) \<Longrightarrow> list_all P (put_column cs c vs)"
  by (induction cs c vs rule: put_column.induct) auto

lemma put_column_wf:
  assumes "wf_table t" "get_column t c = Some old" "length vs = length old"
  shows "wf_table (t\<lparr>cols := put_column (cols t) c vs\<rparr>)"
proof -
  have n: "length vs = length (index t)" using wf_column_length [OF assms(1,2)] assms(3) by simp
  have "c \<in> set (columns t)" using assms(2) get_column_in_columns [of t c] by simp
  then have d: "map fst (put_column (cols t) c vs) = map fst (cols t)"
    by (simp add: names_put_column columns_def)
  have "list_all (\<lambda>(c, vs). length vs = length (index t)) (put_column (cols t) c vs)"
    using assms(1) n by (intro list_all_put_column) (simp_all add: wf_table_def)
  then show ?thesis using assms(1) d by (simp add: wf_table_def columns_def)
qed

lemma smooth_column_keeps:
  assumes "wf_table t" "savgol_ok savgol_filter"
  shows "wf_table (smooth_column savgol_filter t col)"
    and "index (smooth_column savgol_filter t col) = index t"
    and "columns (smooth_column savgol_filter t col) = columns t"
proof -
  show "index (smooth_column savgol_filter t col) = index t"
    by (simp add: smooth_column_def split: option.splits)
  show "wf_table (smooth_column savgol_filter t col)"
    using assms(1) by (auto simp: smooth_column_def put_column_wf split: option.splits)
  show "columns (smooth_column savgol_filter t col) = columns t"
    using get_column_in_columns [of t col]
    by (auto simp: smooth_column_def columns_put split: option.splits)
qed

lemma smooth_curves_keeps:
  assumes "wf_table t" "savgol_ok savgol_filter"
  shows "wf_table (smooth_curves savgol_filter curves t)
       \<and> index (smooth_curves savgol_filter curves t) = index t
       \<and> columns (smooth_curves savgol_filter curves t) = columns t"
  using assms(1)
proof (induction curves arbitrary: t)
  case Nil
  then show ?case by (simp add: smooth_curves_def)
next
  case (Cons c curves)
  show ?case
  proof (cases "cv_column c")
    case None
    then show ?thesis using Cons.IH [OF Cons.prems] by (simp add: smooth_curves_def)
  next
    case (Some col)
    have "smooth_curves savgol_filter (c # curves) t
            = smooth_curves savgol_filter curves (smooth_column savgol_filter t col)"
      using Some by (simp add: smooth_curves_def)
    then show ?thesis
      using Cons.IH [OF smooth_column_keeps(1) [OF Cons.prems assms(2), of col]]
        smooth_column_keeps(2,3) [OF Cons.prems assms(2), of col] by simp
  qed
qed

lemma smooth_curves_append:
  "smooth_curves sg (xs @ ys) t = smooth_curves sg ys (smooth_curves sg xs t)"
  by (simp add: smooth_curves_def)

lemma for_each_smooth_curve:
  assumes "logs < length (heap s)" "wf_table (heap s ! logs)" "distinct (index (heap s ! logs))"
    "savgol_ok savgol_filter" "list_all (\<lambda>curve_info. cv_column curve_info \<noteq> None) curves"
  shows "for_each (smooth_curve savgol_filter logs) curves s
           = (Inr (), s\<lparr>heap := (heap s)[logs := smooth_curves savgol_filter curves (heap s ! logs)]\<rparr>)"
  using assms(1,2,3,5)
proof (induction curves arbitrary: s)
  case Nil
  then show ?case by (simp add: smooth_curves_def return_val_def)
next
  case (Cons c curves)
  obtain col where col: "cv_column c = Some col" using Cons.prems(4) by auto
  let ?t = "smooth_column savgol_filter (heap s ! logs) col"
  let ?s = "s\<lparr>heap := (heap s)[logs := ?t]\<rparr>"
  have step: "smooth_curve savgol_filter logs c s = (Inr (), ?s)"
    using Cons.prems(1,2,3) assms(4) col by (rule smooth_curve_run)
  have r: "logs < length (heap ?s)" using Cons.prems(1) by simp
  have t: "heap ?s ! logs = ?t" using Cons.prems(1) by simp
  have w: "wf_table (heap ?s ! logs)" "distinct (index (heap ?s ! logs))"
    unfolding t using smooth_column_keeps [OF Cons.prems(2) assms(4), of col] Cons.prems(3)
    by simp_all
  have rest: "list_all (\<lambda>curve_info. cv_column curve_info \<noteq> None) curves"
    using Cons.prems(4) by simp
  have "for_each (smooth_curve savgol_filter logs) (c # curves) s
          = for_each (smooth_curve savgol_filter logs) curves ?s"
    using step by (simp add: bind_prog_def)
  also have "\<dots> = (Inr (), ?s\<lparr>heap := (heap ?s)[logs := smooth_curves savgol_filter curves (heap ?s ! logs)]\<rparr>)"
    by (rule Cons.IH [OF r w rest])
  also have "\<dots> = (Inr (), s\<lparr>heap := (heap s)[logs := smooth_curves savgol_filter (c # curves) (heap s ! logs)]\<rparr>)"
    unfolding t using col by (simp add: smooth_curves_def)
  finally show ?case .
qed

lemma smooth_track_run:
  assumes "logs < length (heap s)" "wf_table (heap s ! logs)" "distinct (index (heap s ! logs))"
    "savgol_ok savgol_filter" "config_ok [track_info]"
  shows "smooth_track savgol_filter logs track_info s
           = (Inr (), s\<lparr>heap := (heap s)[logs :=
                 smooth_curves savgol_filter (smoothed_curves [track_info]) (heap s ! logs)]\<rparr>)"
proof -
  obtain curves where c: "tk_curves track_info = Some curves"
      "list_all (\<lambda>curve_info. cv_column curve_info \<noteq> None) curves"
    using assms(5) by (auto simp: config_ok_def split: option.splits)
  show ?thesis
  proof (cases "dict_get (tk_smoothing track_info) ''no'' = ''yes''")
    case True
    then show ?thesis
      using for_each_smooth_curve [OF assms(1-4) c(2)] c(1)
      by (simp add: smooth_track_def smoothed_curves_def dict_get_def)
  next
    case False
    then show ?thesis
      by (simp add: smooth_track_def smoothed_curves_def smooth_curves_def return_val_def)
  qed
qed

lemma for_each_smooth_track:
  assumes "logs < length (heap s)" "wf_table (heap s ! logs)" "distinct (index (heap s ! logs))"
    "savgol_ok savgol_filter" "config_ok tracks_config"
  shows "for_each (smooth_track savgol_filter logs) tracks_config s
           = (Inr (), s\<lparr>heap := (heap s)[logs :=
                 smooth_curves savgol_filter (smoothed_curves tracks_config) (heap s ! logs)]\<rparr>)"
  using assms(1,2,3,5)
proof (induction tracks_config arbitrary: s)
  case Nil
  then show ?case by (simp add: smooth_curves_def smoothed_curves_def return_val_def)
next
  case (Cons tr rest)
  let ?t = "smooth_curves savgol_filter (smoothed_curves [tr]) (heap s ! logs)"
  let ?s = "s\<lparr>heap := (heap s)[logs := ?t]\<rparr>"
  have ok: "config_ok [tr]" "config_ok rest" using Cons.prems(4) by (simp_all add: config_ok_def)
  have step: "smooth_track savgol_filter logs tr s = (Inr (), ?s)"
    using Cons.prems(1,2,3) assms(4) ok(1) by (rule smooth_track_run)
  have r: "logs < length (heap ?s)" using Cons.prems(1) by simp
  have t: "heap ?s ! logs = ?t" using Cons.prems(1) by simp
  have w: "wf_table (heap ?s ! logs)" "distinct (index (heap ?s ! logs))"
    unfolding t using smooth_curves_keeps [OF Cons.prems(2) assms(4)] Cons.prems(3)
    by simp_all
  have "for_each (smooth_track savgol_filter logs) (tr # rest) s
          = for_each (smooth_track savgol_filter logs) rest ?s"
    using step by (simp add: bind_prog_def)
  also have "\<dots> = (Inr (), ?s\<lparr>heap := (heap ?s)[logs :=
        smooth_curves savgol_filter (smoothed_curves rest) (heap ?s ! logs)]\<rparr>)"
    by (rule Cons.IH [OF r w ok(2)])
  also have "\<dots> = (Inr (), s\<lparr>heap := (heap s)[logs :=
        smooth_curves savgol_filter (smoothed_curves (tr # rest)) (heap s ! logs)]\<rparr>)"
    unfolding t using smooth_curves_append [of savgol_filter "smoothed_curves [tr]" "smoothed_curves rest"]
    by (simp add: smoothed_curves_def)
  finally show ?case .
qed

lemma depth_filter_run:
  assumes "data < length (heap s)" "get_column (heap s ! data) depth_column = Some depth"
  shows "depth_filter data depth_column top_depth bottom_depth s
           = (Inr (Suc (length (heap s))),
              s\<lparr>heap := heap s @ [select_rows (heap s ! data) (depth_mask depth top_depth bottom_depth),
                                    select_rows (heap s ! data) (depth_mask depth top_depth bottom_depth)]\<rparr>)"
  using assms getitem_run [OF assms]
  by (simp add: depth_filter_def bind_prog_def getitem_mask_def deref_def new_object_def
      df_copy_def depth_mask_def nth_append)

lemma depth_filter_missing:
  assumes "data < length (heap s)" "get_column (heap s ! data) depth_column = None"
  shows "depth_filter data depth_column top_depth bottom_depth s = (Inl KeyError, s)"
  using getitem_missing [OF assms] by (simp add: depth_filter_def bind_prog_def)

lemma map_of_map_values:
  "map_of (map (\<lambda>(c, vs). (c, f vs)) cs) c = map_option f (map_of cs c)"
  by (induction cs) auto

lemma get_column_select_rows:
  "get_column (select_rows t m) c = map_option (select m) (get_column t c)"
  by (simp add: get_column_def select_rows_def map_of_map_values)

lemma columns_select_rows: "columns (select_rows t m) = columns t"
  by (simp add: columns_def select_rows_def comp_def split_def)

lemma index_select_rows: "index (select_rows t m) = select m (index t)"
  by (simp add: select_rows_def)

lemma length_select_same:
  "length xs = length ys \<Longrightarrow> length (select m xs) = length (select m ys)"
proof (induction m arbitrary: xs ys)
  case Nil
  show ?case by simp
next
  case (Cons b m)
  then show ?case by (cases xs; cases ys) simp_all
qed

lemma wf_select_rows: "wf_table t \<Longrightarrow> wf_table (select_rows t m)"
  unfolding wf_table_def columns_select_rows
  by (auto simp: select_rows_def list_all_iff intro: length_select_same)

lemma plot_curve_run:
  assumes "logs < length (heap s)" "get_column (heap s ! logs) depth_column = Some ys"
    "cv_column curve_info = Some col"
  shows "plot_curve logs depth_column n g curve_info s
           = (Inr (case get_column (heap s ! logs) col of None \<Rightarrow> None
                   | Some xs \<Rightarrow> Some (draw_curve n g curve_info col xs ys)),
              s\<lparr>stdout := stdout s @ curve_warning (heap s ! logs) curve_info\<rparr>)"
proof (cases "get_column (heap s ! logs) col")
  case None
  then have "col \<notin> set (columns (heap s ! logs))"
    using get_column_in_columns [of "heap s ! logs" col] by simp
  then show ?thesis
    using assms(1,3) None
    by (simp add: plot_curve_def bind_prog_def deref_def print_line_def return_val_def
        curve_warning_def)
next
  case (Some xs)
  then have "col \<in> set (columns (heap s ! logs))"
    using get_column_in_columns [of "heap s ! logs" col] by simp
  then show ?thesis
    using assms(1,3) Some getitem_run [OF assms(1) Some] getitem_run [OF assms(1,2)]
    by (simp add: plot_curve_def bind_prog_def deref_def return_val_def curve_warning_def)
qed

lemma plot_curves_run:
  assumes "logs < length (heap s)" "get_column (heap s ! logs) depth_column = Some ys"
    "list_all (\<lambda>curve_info. cv_column curve_info \<noteq> None) curves"
  shows "plot_curves logs depth_column n g curves s
           = (Inr (concat (map (curve_twin (heap s ! logs) ys n g) curves)),
              s\<lparr>stdout := stdout s @ concat (map (curve_warning (heap s ! logs)) curves)\<rparr>)"
  using assms
proof (induction curves arbitrary: s)
  case Nil
  then show ?case by (simp add: return_val_def)
next
  case (Cons c curves)
  obtain col where col: "cv_column c = Some col" using Cons.prems(3) by auto
  let ?s = "s\<lparr>stdout := stdout s @ curve_warning (heap s ! logs) c\<rparr>"
  have step: "plot_curve logs depth_column n g c s
           = (Inr (case get_column (heap s ! logs) col of None \<Rightarrow> None
                   | Some xs \<Rightarrow> Some (draw_curve n g c col xs ys)), ?s)"
    using Cons.prems(1,2) col by (rule plot_curve_run)
  have h: "heap ?s = heap s" by simp
  have rest: "plot_curves logs depth_column n g curves ?s
           = (Inr (concat (map (curve_twin (heap s ! logs) ys n g) curves)),
              ?s\<lparr>stdout := stdout ?s @ concat (map (curve_warning (heap s ! logs)) curves)\<rparr>)"
    using Cons.IH [of ?s] Cons.prems unfolding h by simp
  have tw: "curve_twin (heap s ! logs) ys n g c
              = (case get_column (heap s ! logs) col of None \<Rightarrow> []
                 | Some xs \<Rightarrow> [draw_curve n g c col xs ys])"
    using col by (simp add: curve_twin_def)
  show ?case
    using step rest
    by (cases "get_column (heap s ! logs) col")
       (simp_all add: bind_prog_def return_val_def tw)
qed

lemma plot_track_run:
  assumes "logs < length (heap s)" "get_column (heap s ! logs) depth_column = Some ys"
    "config_ok [track_info]"
  shows "plot_track logs depth_column n track_idx track_info ax s
           = (Inr (plotted_track (heap s ! logs) ys n track_idx track_info ax),
              s\<lparr>stdout := stdout s @ track_warnings (heap s ! logs) track_info\<rparr>)"
proof -
  obtain curves where c: "tk_curves track_info = Some curves"
      "list_all (\<lambda>curve_info. cv_column curve_info \<noteq> None) curves"
    using assms(3) by (auto simp: config_ok_def split: option.splits)
  show ?thesis
    using plot_curves_run [OF assms(1,2) c(2)] c(1)
    by (simp add: plot_track_def plotted_track_def track_warnings_def dict_get_def
        bind_prog_def return_val_def Let_def)
qed

lemma plot_tracks_run:
  assumes "logs < length (heap s)" "get_column (heap s ! logs) depth_column = Some ys"
    "config_ok tracks" "track_idx + length tracks \<le> length axes"
  shows "plot_tracks logs depth_column n track_idx tracks axes s
           = (Inr (plotted_tracks (heap s ! logs) ys n track_idx tracks axes),
              s\<lparr>stdout := stdout s @ concat (map (track_warnings (heap s ! logs)) tracks)\<rparr>)"
  using assms
proof (induction tracks arbitrary: s track_idx axes)
  case Nil
  then show ?case by (simp add: return_val_def)
next
  case (Cons tr rest)
  have ok: "config_ok [tr]" "config_ok rest" using Cons.prems(3) by (simp_all add: config_ok_def)
  let ?ax = "plotted_track (heap s ! logs) ys n track_idx tr (axes ! track_idx)"
  let ?s = "s\<lparr>stdout := stdout s @ track_warnings (heap s ! logs) tr\<rparr>"
  have step: "plot_track logs depth_column n track_idx tr (axes ! track_idx) s = (Inr ?ax, ?s)"
    using Cons.prems(1,2) ok(1) by (rule plot_track_run)
  have h: "heap ?s = heap s" by simp
  have l: "Suc track_idx + length rest \<le> length (axes[track_idx := ?ax])"
    using Cons.prems(4) by simp
  have rest: "plot_tracks logs depth_column n (Suc track_idx) rest (axes[track_idx := ?ax]) ?s
           = (Inr (plotted_tracks (heap s ! logs) ys n (Suc track_idx) rest (axes[track_idx := ?ax])),
              ?s\<lparr>stdout := stdout ?s @ concat (map (track_warnings (heap s ! logs)) rest)\<rparr>)"
    using Cons.IH [of ?s "Suc track_idx" "axes[track_idx := ?ax]"] Cons.prems(1,2) ok(2) l
    unfolding h by simp
  have i: "track_idx < length axes" using Cons.prems(4) by simp
  show ?case
    using step rest i by (simp add: bind_prog_def)
qed

lemma length_plotted_tracks [simp]: "length (plotted_tracks t ys n i tracks axes) = length axes"
  by (induction tracks arbitrary: i axes) simp_all

lemma plotted_tracks_before:
  "j < i \<Longrightarrow> plotted_tracks t ys n i tracks axes ! j = axes ! j"
  by (induction tracks arbitrary: i axes) simp_all

lemma plotted_tracks_nth:
  "i \<le> j \<Longrightarrow> j < i + length tracks \<Longrightarrow> i + length tracks \<le> length axes \<Longrightarrow>
   plotted_tracks t ys n i tracks axes ! j = plotted_track t ys n j (tracks ! (j - i)) (axes ! j)"
proof (induction tracks arbitrary: i axes)
  case Nil
  then show ?case by simp
next
  case (Cons tr rest)
  show ?case
  proof (cases "j = i")
    case True
    then show ?thesis using Cons.prems by (simp add: plotted_tracks_before)
  next
    case False
    then have "Suc i \<le> j" using Cons.prems(1) by simp
    then show ?thesis
      using Cons.IH [of "Suc i" "axes[i := plotted_track t ys n i tr (axes ! i)]"] Cons.prems False
      by (simp add: Suc_diff_le)
  qed
qed

lemma length_prepared_axes [simp]: "length (prepared_axes n a b c d) = n"
  by (cases n) (simp_all add: prepared_axes_def)

lemma get_column_None_columns:
  "columns t1 = columns t2 \<Longrightarrow> get_column t1 c = None \<longleftrightarrow> get_column t2 c = None"
  using get_column_in_columns [of t1 c] get_column_in_columns [of t2 c] by auto

lemma curve_warning_columns:
  assumes "columns t1 = columns t2"
  shows "curve_warning t1 = curve_warning t2"
proof
  fix c
  show "curve_warning t1 c = curve_warning t2 c"
  proof (cases "cv_column c")
    case None
    then show ?thesis by (simp add: curve_warning_def)
  next
    case (Some col)
    then show ?thesis
      using get_column_None_columns [OF assms, of col]
      by (cases "get_column t1 col"; cases "get_column t2 col") (simp_all add: curve_warning_def)
  qed
qed

lemma track_warnings_columns:
  "columns t1 = columns t2 \<Longrightarrow> track_warnings t1 tr = track_warnings t2 tr"
  using curve_warning_columns [of t1 t2] by (simp add: track_warnings_def)

lemma render_logs_run:
  assumes "logs < length (heap s)" "wf_table (heap s ! logs)" "distinct (index (heap s ! logs))"
    "savgol_ok savgol_filter" "config_ok tracks_config" "tracks_config \<noteq> []"
    "get_column (heap s ! logs) depth_column \<noteq> None"
  shows "\<exists>ys. get_column (smooth_curves savgol_filter (smoothed_curves tracks_config) (heap s ! logs))
               depth_column = Some ys
    \<and> render_logs savgol_filter logs tracks_config depth_column top_depth bottom_depth
        figure_height subplot_adjust_top major_ticks_interval minor_ticks_interval
        num_vertical_gridlines formation s
      = (Inr (rendered_figure
               (smooth_curves savgol_filter (smoothed_curves tracks_config) (heap s ! logs)) ys
               tracks_config top_depth bottom_depth figure_height subplot_adjust_top
               major_ticks_interval minor_ticks_interval num_vertical_gridlines formation),
         s\<lparr>heap := (heap s)[logs :=
               smooth_curves savgol_filter (smoothed_curves tracks_config) (heap s ! logs)],
           stdout := stdout s @ concat (map (track_warnings (heap s ! logs)) tracks_config)\<rparr>)"
proof -
  let ?t = "heap s ! logs"
  let ?tS = "smooth_curves savgol_filter (smoothed_curves tracks_config) ?t"
  let ?s1 = "s\<lparr>heap := (heap s)[logs := ?tS]\<rparr>"
  let ?n = "length tracks_config"
  let ?axes = "prepared_axes ?n top_depth bottom_depth major_ticks_interval minor_ticks_interval"
  have keep: "columns ?tS = columns ?t"
    using smooth_curves_keeps [OF assms(2,4)] by simp
  have "get_column ?tS depth_column \<noteq> None"
    using assms(7) unfolding get_column_in_columns keep .
  then obtain ys where ys: "get_column ?tS depth_column = Some ys" by auto
  obtain m where n: "?n = Suc m" using assms(6) by (cases tracks_config) auto
  have sub: "subplots ?n s = (Inr (replicate ?n new_axes), s)"
    using n by (simp add: subplots_def return_val_def)
  have lab: "label_first_axes (map (general_settings top_depth bottom_depth
        major_ticks_interval minor_ticks_interval) (replicate ?n new_axes)) s = (Inr ?axes, s)"
    unfolding n by (simp add: label_first_axes_def prepared_axes_def return_val_def)
  have sm: "for_each (smooth_track savgol_filter logs) tracks_config s = (Inr (), ?s1)"
    using assms(1-5) by (rule for_each_smooth_track)
  have r: "logs < length (heap ?s1)" and t: "heap ?s1 ! logs = ?tS"
    using assms(1) by simp_all
  have ys1: "get_column (heap ?s1 ! logs) depth_column = Some ys"
    unfolding t by (rule ys)
  have pl: "plot_tracks logs depth_column num_vertical_gridlines 0 tracks_config ?axes ?s1
      = (Inr (plotted_tracks (heap ?s1 ! logs) ys num_vertical_gridlines 0 tracks_config ?axes),
         ?s1\<lparr>stdout := stdout ?s1 @ concat (map (track_warnings (heap ?s1 ! logs)) tracks_config)\<rparr>)"
    using r ys1 assms(5) by (rule plot_tracks_run) simp
  have w: "map (track_warnings ?tS) tracks_config = map (track_warnings ?t) tracks_config"
    using track_warnings_columns [OF keep] by simp
  have "render_logs savgol_filter logs tracks_config depth_column top_depth bottom_depth
        figure_height subplot_adjust_top major_ticks_interval minor_ticks_interval
        num_vertical_gridlines formation s
      = (Inr (rendered_figure ?tS ys tracks_config top_depth bottom_depth figure_height
               subplot_adjust_top major_ticks_interval minor_ticks_interval
               num_vertical_gridlines formation),
         s\<lparr>heap := (heap s)[logs := ?tS],
           stdout := stdout s @ concat (map (track_warnings ?t) tracks_config)\<rparr>)"
    unfolding render_logs_def Let_def
    using sub lab sm pl unfolding t w
    by (simp add: bind_prog_def return_val_def rendered_figure_def Let_def)
  with ys show ?thesis by blast
qed

lemma combo_plot_run:
  assumes "data < length (heap s)" "wf_table (heap s ! data)" "distinct (index (heap s ! data))"
    "get_column (heap s ! data) depth_column = Some depth"
    "savgol_ok savgol_filter" "config_ok tracks_config" "tracks_config \<noteq> []"
  shows "\<exists>ys. get_column (smooth_curves savgol_filter (smoothed_curves tracks_config)
                 (select_rows (heap s ! data) (depth_mask depth top_depth bottom_depth)))
               depth_column = Some ys
    \<and> combo_plot savgol_filter data tracks_config depth_column top_depth bottom_depth
        figure_height subplot_adjust_top major_ticks_interval minor_ticks_interval
        num_vertical_gridlines formation s
      = (Inr (rendered_figure
               (smooth_curves savgol_filter (smoothed_curves tracks_config)
                  (select_rows (heap s ! data) (depth_mask depth top_depth bottom_depth))) ys
               tracks_config top_depth bottom_depth figure_height subplot_adjust_top
               major_ticks_interval minor_ticks_interval num_vertical_gridlines formation),
         s\<lparr>heap := heap s @ [select_rows (heap s ! data) (depth_mask depth top_depth bottom_depth),
               smooth_curves savgol_filter (smoothed_curves tracks_config)
                  (select_rows (heap s ! data) (depth_mask depth top_depth bottom_depth))],
           stdout := stdout s @ concat (map (track_warnings (heap s ! data)) tracks_config)\<rparr>)"
proof -
  let ?t = "heap s ! data"
  let ?sel = "select_rows ?t (depth_mask depth top_depth bottom_depth)"
  let ?tS = "smooth_curves savgol_filter (smoothed_curves tracks_config) ?sel"
  let ?logs = "Suc (length (heap s))"
  let ?s1 = "s\<lparr>heap := heap s @ [?sel, ?sel]\<rparr>"
  have f: "depth_filter data depth_column top_depth bottom_depth s = (Inr ?logs, ?s1)"
    using assms(1,4) by (rule depth_filter_run)
  have r: "?logs < length (heap ?s1)" by simp
  have t: "heap ?s1 ! ?logs = ?sel" by (simp add: nth_append)
  have w: "wf_table (heap ?s1 ! ?logs)" unfolding t using assms(2) by (rule wf_select_rows)
  have d: "distinct (index (heap ?s1 ! ?logs))"
    unfolding t index_select_rows using assms(3) by (rule distinct_select)
  have c: "get_column (heap ?s1 ! ?logs) depth_column \<noteq> None"
    unfolding t get_column_select_rows using assms(4) by simp
  obtain ys where ys: "get_column (smooth_curves savgol_filter (smoothed_curves tracks_config)
        (heap ?s1 ! ?logs)) depth_column = Some ys"
    and run: "render_logs savgol_filter ?logs tracks_config depth_column top_depth bottom_depth
        figure_height subplot_adjust_top major_ticks_interval minor_ticks_interval
        num_vertical_gridlines formation ?s1
      = (Inr (rendered_figure
               (smooth_curves savgol_filter (smoothed_curves tracks_config) (heap ?s1 ! ?logs)) ys
               tracks_config top_depth bottom_depth figure_height subplot_adjust_top
               major_ticks_interval minor_ticks_interval num_vertical_gridlines formation),
         ?s1\<lparr>heap := (heap ?s1)[?logs :=
               smooth_curves savgol_filter (smoothed_curves tracks_config) (heap ?s1 ! ?logs)],
           stdout := stdout ?s1 @ concat (map (track_warnings (heap ?s1 ! ?logs)) tracks_config)\<rparr>)"
    using render_logs_run [OF r w d assms(5,6,7) c] by blast
  have wn: "map (track_warnings ?sel) tracks_config = map (track_warnings ?t) tracks_config"
    using track_warnings_columns [OF columns_select_rows] by simp
  have "combo_plot savgol_filter data tracks_config depth_column top_depth bottom_depth
        figure_height subplot_adjust_top major_ticks_interval minor_ticks_interval
        num_vertical_gridlines formation s
      = (Inr (rendered_figure ?tS ys tracks_config top_depth bottom_depth figure_height
               subplot_adjust_top major_ticks_interval minor_ticks_interval
               num_vertical_gridlines formation),
         s\<lparr>heap := heap s @ [?sel, ?tS],
           stdout := stdout s @ concat (map (track_warnings ?t) tracks_config)\<rparr>)"
    unfolding combo_plot_def using f run unfolding t wn
    by (simp add: bind_prog_def list_update_append)
  moreover have "get_column ?tS depth_column = Some ys" using ys unfolding t .
  ultimately show ?thesis by blast
qed

lemma combo_plot_no_tracks:
  assumes "data < length (heap s)" "get_column (heap s ! data) depth_column = Some depth"
  shows "fst (combo_plot savgol_filter data [] depth_column top_depth bottom_depth
        figure_height subplot_adjust_top major_ticks_interval minor_ticks_interval
        num_vertical_gridlines formation s) = Inl ValueError"
  unfolding combo_plot_def using depth_filter_run [OF assms]
  by (simp add: bind_prog_def render_logs_def subplots_def raise_err_def)

lemma twins_formation_lines [simp]:
  "ax_twins (formation_lines a b items ax) = ax_twins ax"
  unfolding formation_lines_def by (induction items arbitrary: ax) (auto split: prod.splits)

lemma twins_prepared_axes:
  "i < n \<Longrightarrow> ax_twins (prepared_axes n a b c d ! i) = []"
  by (cases n; cases i) (simp_all add: prepared_axes_def general_settings_def new_axes_def)

lemma twins_plotted_track:
  "ax_twins (plotted_track t ys n i tr ax)
     = ax_twins ax @ concat (map (curve_twin t ys n (dict_get (tk_show_grid tr) True))
                               (dict_get (tk_curves tr) []))"
  by (simp add: plotted_track_def Let_def)

lemma length_rendered_axes:
  "length (fig_axes (rendered_figure t ys cfg a b fh sat maj mno n formation)) = length cfg"
  by (simp add: rendered_figure_def Let_def split: option.splits)

lemma twins_rendered_figure:
  assumes "i < length cfg"
  shows "ax_twins (fig_axes (rendered_figure t ys cfg a b fh sat maj mno n formation) ! i)
     = concat (map (curve_twin t ys n (dict_get (tk_show_grid (cfg ! i)) True))
                               (dict_get (tk_curves (cfg ! i)) []))"
proof -
  have "ax_twins (plotted_tracks t ys n 0 cfg (prepared_axes (length cfg) a b maj mno) ! i)
     = concat (map (curve_twin t ys n (dict_get (tk_show_grid (cfg ! i)) True))
                               (dict_get (tk_curves (cfg ! i)) []))"
    using assms by (simp add: plotted_tracks_nth twins_plotted_track twins_prepared_axes)
  then show ?thesis
    using assms by (simp add: rendered_figure_def Let_def split: option.splits)
qed

subsection \<open>What the renderer draws\<close>

lemma xlabel_draw_curve [simp]:
  "tw_xlabel (draw_curve n g c col xs ys) = dict_get (cv_label c) col"
  by (simp add: draw_curve_def Let_def twiny_def split: option.splits)




lemma example_savgol_ok: "savgol_ok example_savgol"
  by (simp add: savgol_ok_def example_savgol_def)

lemma curve_twins_map:
  assumes "list_all (\<lambda>c. cv_column c \<noteq> None) cs" "columns t' = columns t"
    and "\<And>c col xs. cv_column c = Some col \<Longrightarrow> f (draw_curve n g c col xs ys) = F c"
  shows "map f (concat (map (curve_twin t' ys n g) cs)) = map F (filter (column_present t) cs)"
  using assms(1)
proof (induction cs)
  case Nil
  show ?case by simp
next
  case (Cons c cs)
  then obtain col where col: "cv_column c = Some col" by auto
  have c: "column_of c = col" by (simp add: column_of_def col dict_get_def)
  have p: "column_present t c \<longleftrightarrow> get_column t' col \<noteq> None"
    unfolding get_column_in_columns assms(2) by (simp add: column_present_def c)
  have tw: "curve_twin t' ys n g c
              = (case get_column t' col of None \<Rightarrow> [] | Some xs \<Rightarrow> [draw_curve n g c col xs ys])"
    by (simp add: curve_twin_def col)
  show ?case
    using Cons p assms(3) [OF col] by (cases "get_column t' col") (simp_all add: tw)
qed


lemma frame_return: "R x \<Longrightarrow> frame_ret h (return_val x) R"
  by (simp add: frame_ret_def return_val_def)

lemma frame_raise: "frame_ret h (raise_err e) R"
  by (simp add: frame_ret_def raise_err_def)

lemma frame_bind:
  assumes "frame_ret h m R" and "\<And>x. R x \<Longrightarrow> frame_ret h (f x) Q"
  shows "frame_ret h (bind_prog m f) Q"
  unfolding frame_ret_def
proof (intro allI impI)
  fix s :: pystate
  assume p: "prefix h (heap s)"
  obtain res s' where m: "m s = (res, s')" by (cases "m s")
  have 1: "prefix h (heap s')" and 2: "\<And>x. res = Inr x \<Longrightarrow> R x"
    using assms(1) p m by (auto simp: frame_ret_def)
  show "prefix h (heap (snd (bind_prog m f s))) \<and> (\<forall>x. fst (bind_prog m f s) = Inr x \<longrightarrow> Q x)"
  proof (cases res)
    case (Inl e)
    then show ?thesis using m 1 by (simp add: bind_prog_def)
  next
    case (Inr x)
    then have "frame_ret h (f x) Q" using 2 assms(2) by simp
    then show ?thesis using m 1 Inr by (simp add: bind_prog_def frame_ret_def)
  qed
qed

lemma frame_deref: "frame_ret h (deref r) (\<lambda>_. True)"
  by (simp add: frame_ret_def deref_def)

lemma frame_print: "frame_ret h (print_line l) (\<lambda>_. True)"
  by (simp add: frame_ret_def print_line_def)

lemma prefix_update: "prefix h xs \<Longrightarrow> length h \<le> r \<Longrightarrow> prefix h (xs[r := t])"
  by (auto simp: prefix_def list_update_append)

lemma frame_assign: "length h \<le> r \<Longrightarrow> frame_ret h (assign r t) (\<lambda>_. True)"
  by (simp add: frame_ret_def assign_def prefix_update)

lemma frame_new_object: "frame_ret h (new_object t) (\<lambda>r. length h \<le> r)"
  by (auto simp: frame_ret_def new_object_def prefix_length_le intro: prefix_prefix)

lemma frame_for_each:
  assumes "\<And>x. frame_ret h (body x) (\<lambda>_. True)"
  shows "frame_ret h (for_each body xs) (\<lambda>_. True)"
  by (induction xs) (auto intro: frame_return frame_bind assms)

lemma frame_getitem: "frame_ret h (getitem r c) (\<lambda>_. True)"
  unfolding getitem_def
  by (rule frame_bind [OF frame_deref]) (auto split: option.splits intro: frame_return frame_raise)

lemma frame_getattr: "frame_ret h (getattr r c) (\<lambda>_. True)"
  unfolding getattr_def
  by (rule frame_bind [OF frame_deref]) (auto split: option.splits intro: frame_return frame_raise)

lemma frame_df_copy: "frame_ret h (df_copy r) (\<lambda>r'. length h \<le> r')"
  unfolding df_copy_def by (rule frame_bind [OF frame_deref]) (rule frame_new_object)

lemma frame_getitem_mask: "frame_ret h (getitem_mask r m) (\<lambda>r'. length h \<le> r')"
  unfolding getitem_mask_def by (rule frame_bind [OF frame_deref]) (rule frame_new_object)

lemma frame_setitem_scalar: "length h \<le> r \<Longrightarrow> frame_ret h (setitem_scalar r c v) (\<lambda>_. True)"
  unfolding setitem_scalar_def by (rule frame_bind [OF frame_deref]) (rule frame_assign)

lemma frame_loc_setitem_mask:
  "length h \<le> r \<Longrightarrow> frame_ret h (loc_setitem_mask r m c v) (\<lambda>_. True)"
  unfolding loc_setitem_mask_def by (rule frame_bind [OF frame_deref]) (rule frame_assign)

lemma frame_loc_setitem_labels:
  "length h \<le> r \<Longrightarrow> frame_ret h (loc_setitem_labels r ls c vs) (\<lambda>_. True)"
  unfolding loc_setitem_labels_def
  by (rule frame_bind [OF frame_deref]) (auto split: sum.splits intro: frame_assign frame_raise)

lemma frame_mark_zone: "length h \<le> r \<Longrightarrow> frame_ret h (mark_zone r zone) (\<lambda>_. True)"
  unfolding mark_zone_def
  by (cases zone) (auto intro!: frame_bind [OF frame_getattr] frame_loc_setitem_mask)

lemma frame_add_productive_zones:
  "frame_ret h (add_productive_zones data zones) (\<lambda>_. True)"
  unfolding add_productive_zones_def
  by (rule frame_bind [OF frame_df_copy], rule frame_bind [OF frame_setitem_scalar], assumption,
      rule frame_bind [OF frame_for_each], rule frame_mark_zone, assumption,
      rule frame_return, simp)

lemma frame_depth_filter:
  "frame_ret h (depth_filter data c a b) (\<lambda>r. length h \<le> r)"
  unfolding depth_filter_def
  by (intro frame_bind [OF frame_getitem] frame_bind [OF frame_getitem_mask] frame_df_copy)

lemma frame_smooth_curve:
  "length h \<le> logs \<Longrightarrow> frame_ret h (smooth_curve sg logs c) (\<lambda>_. True)"
  unfolding smooth_curve_def
  by (auto split: option.splits
      intro!: frame_raise frame_bind [OF frame_deref] frame_bind [OF frame_getitem]
        frame_return frame_loc_setitem_labels)

lemma frame_smooth_track:
  "length h \<le> logs \<Longrightarrow> frame_ret h (smooth_track sg logs tr) (\<lambda>_. True)"
  unfolding smooth_track_def Let_def
  by (auto split: option.splits intro!: frame_raise frame_return frame_for_each frame_smooth_curve)

lemma frame_plot_curve: "frame_ret h (plot_curve logs c n g ci) (\<lambda>_. True)"
  unfolding plot_curve_def
  by (auto split: option.splits
      intro!: frame_raise frame_bind [OF frame_deref] frame_bind [OF frame_getitem]
        frame_bind [OF frame_print] frame_return)

lemma frame_plot_curves: "frame_ret h (plot_curves logs c n g cs) (\<lambda>_. True)"
proof (induction cs)
  case Nil
  show ?case by (simp add: frame_return)
next
  case (Cons ci cs)
  show ?case
    unfolding plot_curves.simps
    by (intro frame_bind [OF frame_plot_curve] frame_bind [OF Cons.IH] frame_return) simp
qed

lemma frame_plot_track: "frame_ret h (plot_track logs c n i tr ax) (\<lambda>_. True)"
  unfolding plot_track_def Let_def
  by (intro frame_bind [OF frame_plot_curves] frame_return) simp

lemma frame_plot_tracks: "frame_ret h (plot_tracks logs c n i trs axes) (\<lambda>_. True)"
proof (induction trs arbitrary: i axes)
  case Nil
  show ?case by (simp add: frame_return)
next
  case (Cons tr trs)
  show ?case
  proof (cases "i < length axes")
    case True
    then show ?thesis
      by (simp only: plot_tracks.simps if_True) (intro frame_bind [OF frame_plot_track] Cons.IH)
  next
    case False
    then show ?thesis by (simp add: frame_raise)
  qed
qed

lemma frame_subplots: "frame_ret h (subplots n) (\<lambda>_. True)"
  by (auto simp: subplots_def intro: frame_raise frame_return)

lemma frame_label_first_axes: "frame_ret h (label_first_axes axes) (\<lambda>_. True)"
  by (auto simp: label_first_axes_def split: list.splits intro: frame_raise frame_return)

lemma frame_render_logs:
  "length h \<le> logs \<Longrightarrow>
   frame_ret h (render_logs sg logs cfg c a b fh sat maj mno n formation) (\<lambda>_. True)"
  unfolding render_logs_def Let_def
  by (intro frame_bind [OF frame_subplots] frame_bind [OF frame_label_first_axes]
        frame_bind [OF frame_for_each] frame_smooth_track frame_bind [OF frame_plot_tracks]
        frame_return) simp_all

lemma frame_combo_plot:
  "frame_ret h (combo_plot sg data cfg c a b fh sat maj mno n formation) (\<lambda>_. True)"
  unfolding combo_plot_def
  by (rule frame_bind [OF frame_depth_filter]) (rule frame_render_logs)

lemma smooth_curves_fold:
  "list_all (\<lambda>c. cv_column c \<noteq> None) curves \<Longrightarrow>
   smooth_curves sg curves t = fold (\<lambda>c t. smooth_column sg t (column_of c)) curves t"
  unfolding smooth_curves_def
  by (induction curves arbitrary: t) (auto simp: column_of_def dict_get_def)




subsection \<open>The renderer's outcome in every case\<close>

text \<open>
  The run lemmas above say what a well-formed call returns. The lemmas here need no such
  hypothesis: they say when each loop raises, and so what a call that returns has done.
\<close>

lemma assign_scatter_unique:
  assumes "list_all (\<lambda>l. count_list idx l = 1) (dropna_index idx series)"
    "length idx = length series" "length vs = length (dropna_values series)"
  shows "map2 (\<lambda>l old. case map_of (zip (dropna_index idx series) vs) l of
                          None \<Rightarrow> old | Some v \<Rightarrow> Flt v) idx series
         = scatter series vs"
  using assms
proof (induction series arbitrary: idx vs)
  case Nil
  then show ?case by simp
next
  case (Cons c cs)
  then obtain l ls where idx: "idx = l # ls" by (cases idx) auto
  have len: "length ls = length cs" using Cons.prems(2) idx by simp
  have sub: "set (dropna_index ls cs) \<subseteq> set ls"
    unfolding dropna_index_def by (rule set_select)
  show ?case
  proof (cases "isna c")
    case True
    have lab: "dropna_index idx (c # cs) = dropna_index ls cs"
      using True by (simp add: idx dropna_index_def)
    have one: "\<forall>l' \<in> set (dropna_index ls cs). count_list (l # ls) l' = 1"
      using Cons.prems(1) unfolding lab by (simp add: idx list_all_iff)
    have notin: "l \<notin> set (dropna_index ls cs)"
    proof
      assume a: "l \<in> set (dropna_index ls cs)"
      then have "count_list ls l = 0" using one by auto
      moreover have "l \<in> set ls" using a sub by auto
      ultimately show False by (simp add: count_list_0_iff)
    qed
    have rest: "list_all (\<lambda>l'. count_list ls l' = 1) (dropna_index ls cs)"
      using one notin by (auto simp: list_all_iff split: if_splits)
    have "l \<notin> fst ` set (zip (dropna_index ls cs) vs)"
      using notin by (auto dest: set_zip_leftD)
    then have n: "map_of (zip (dropna_index ls cs) vs) l = None"
      by (simp add: map_of_eq_None_iff)
    have v: "length vs = length (dropna_values cs)"
      using Cons.prems(3) True by (simp add: isna_num)
    show ?thesis
      unfolding lab using True n Cons.IH [OF rest len v] by (simp add: idx)
  next
    case False
    then obtain x where x: "num c = Some x" by (cases c) auto
    then obtain v vs' where vs: "vs = v # vs'" using Cons.prems(3) by (cases vs) auto
    have lab: "dropna_index idx (c # cs) = l # dropna_index ls cs"
      using False by (simp add: idx dropna_index_def)
    have one: "count_list (l # ls) l = 1"
      "\<forall>l' \<in> set (dropna_index ls cs). count_list (l # ls) l' = 1"
      using Cons.prems(1) unfolding lab by (simp_all add: idx list_all_iff)
    have notin: "l \<notin> set ls" using one(1) by (simp add: count_list_0_iff)
    have rest: "list_all (\<lambda>l'. count_list ls l' = 1) (dropna_index ls cs)"
      using one(2) notin sub by (auto simp: list_all_iff split: if_splits)
    have v': "length vs' = length (dropna_values cs)"
      using Cons.prems(3) x vs by simp
    have "map2 (\<lambda>l' old. case map_of (zip (l # dropna_index ls cs) (v # vs')) l' of
                          None \<Rightarrow> old | Some v \<Rightarrow> Flt v) ls cs
        = map2 (\<lambda>l' old. case map_of (zip (dropna_index ls cs) vs') l' of
                          None \<Rightarrow> old | Some v \<Rightarrow> Flt v) ls cs"
      using notin by (intro map_cong refl) (auto dest: set_zip_leftD)
    then show ?thesis
      unfolding lab vs using False Cons.IH [OF rest len v'] by (simp add: idx)
  qed
qed

lemma loc_set_labels_exact:
  assumes "wf_table t" "get_column t col = Some series"
  shows "loc_set_labels t (dropna_index (index t) series) col vs
           = (if list_all (\<lambda>l. count_list (index t) l = 1) (dropna_index (index t) series)
                 \<and> length vs = length (dropna_values series)
              then Inr (t\<lparr>cols := put_column (cols t) col (scatter series vs)\<rparr>)
              else Inl ValueError)"
proof -
  let ?labels = "dropna_index (index t) series"
  have len: "length (index t) = length series"
    using wf_column_length [OF assms] by simp
  have sub: "set ?labels \<subseteq> set (index t)"
    unfolding dropna_index_def by (rule set_select)
  then have 1: "\<not> list_ex (\<lambda>l. l \<notin> set (index t)) ?labels"
    by (auto simp: list_ex_iff)
  have 2: "list_ex (\<lambda>l. count_list (index t) l \<noteq> 1) ?labels
             \<longleftrightarrow> \<not> list_all (\<lambda>l. count_list (index t) l = 1) ?labels"
    by (auto simp: list_ex_iff list_all_iff)
  have 3: "length ?labels = length (dropna_values series)"
    using length_dropna [OF len] .
  show ?thesis
  proof (cases "list_all (\<lambda>l. count_list (index t) l = 1) ?labels
                 \<and> length vs = length (dropna_values series)")
    case True
    then show ?thesis
      unfolding loc_set_labels_def
      using 1 2 3 assign_scatter_unique [OF _ len, of vs] assms(2) by simp
  next
    case False
    then show ?thesis
      unfolding loc_set_labels_def using 1 2 3 by auto
  qed
qed

lemma smooth_curve_exact:
  assumes "logs < length (heap s)" "wf_table (heap s ! logs)" "cv_column curve_info = Some col"
  shows "smooth_curve savgol_filter logs curve_info s
           = (if smooth_column_ok savgol_filter (heap s ! logs) col
              then (Inr (), s\<lparr>heap := (heap s)[logs := smooth_column savgol_filter (heap s ! logs) col]\<rparr>)
              else (Inl ValueError, s))"
proof (cases "get_column (heap s ! logs) col")
  case None
  then have "col \<notin> set (columns (heap s ! logs))"
    using get_column_in_columns [of "heap s ! logs" col] by simp
  then show ?thesis
    using assms(1,3) None
    by (simp add: smooth_curve_def bind_prog_def deref_def smooth_column_def smooth_column_ok_def
        return_val_def)
next
  case (Some series)
  then have c: "col \<in> set (columns (heap s ! logs))"
    using get_column_in_columns [of "heap s ! logs" col] by simp
  show ?thesis
  proof (cases "length (dropna_values series) > 5")
    case False
    then show ?thesis
      using assms(1,3) Some c getitem_run [OF assms(1) Some]
      by (simp add: smooth_curve_def bind_prog_def deref_def smooth_column_def
          smooth_column_ok_def return_val_def)
  next
    case True
    show ?thesis
      using assms(1,3) Some c True getitem_run [OF assms(1) Some]
        loc_set_labels_exact [OF assms(2) Some,
          of "savgol_filter (dropna_values series) 5 3 ''nearest''"]
      by (simp add: smooth_curve_def bind_prog_def deref_def smooth_column_def
          smooth_column_ok_def loc_setitem_labels_def assign_def raise_err_def)
  qed
qed

lemma smooth_column_wf:
  assumes "wf_table t"
  shows "wf_table (smooth_column savgol_filter t col)"
    and "index (smooth_column savgol_filter t col) = index t"
    and "columns (smooth_column savgol_filter t col) = columns t"
proof -
  show "index (smooth_column savgol_filter t col) = index t"
    by (simp add: smooth_column_def split: option.splits)
  show "wf_table (smooth_column savgol_filter t col)"
    using assms by (auto simp: smooth_column_def put_column_wf split: option.splits)
  show "columns (smooth_column savgol_filter t col) = columns t"
    using get_column_in_columns [of t col]
    by (auto simp: smooth_column_def columns_put split: option.splits)
qed

lemma smooth_curves_wf:
  assumes "wf_table t"
  shows "wf_table (smooth_curves savgol_filter curves t)
       \<and> index (smooth_curves savgol_filter curves t) = index t
       \<and> columns (smooth_curves savgol_filter curves t) = columns t"
  using assms
proof (induction curves arbitrary: t)
  case Nil
  then show ?case by (simp add: smooth_curves_def)
next
  case (Cons c curves)
  show ?case
  proof (cases "cv_column c")
    case None
    then show ?thesis using Cons.IH [OF Cons.prems] by (simp add: smooth_curves_def)
  next
    case (Some col)
    have "smooth_curves savgol_filter (c # curves) t
            = smooth_curves savgol_filter curves (smooth_column savgol_filter t col)"
      using Some by (simp add: smooth_curves_def)
    then show ?thesis
      using Cons.IH [OF smooth_column_wf(1) [OF Cons.prems, of savgol_filter col]]
        smooth_column_wf(2,3) [OF Cons.prems, of savgol_filter col] by simp
  qed
qed

lemma smooth_curves_result_Inr:
  "smooth_curves_result sg curves t = Inr t' \<Longrightarrow>
   t' = smooth_curves sg curves t \<and> list_all (\<lambda>c. cv_column c \<noteq> None) curves"
proof (induction curves arbitrary: t)
  case Nil
  then show ?case by (simp add: smooth_curves_def)
next
  case (Cons c curves)
  then obtain col where col: "cv_column c = Some col" by (cases "cv_column c") auto
  have ok: "smooth_column_ok sg t col" and
    r: "smooth_curves_result sg curves (smooth_column sg t col) = Inr t'"
    using Cons.prems col by (auto split: if_splits)
  have "smooth_curves sg (c # curves) t = smooth_curves sg curves (smooth_column sg t col)"
    using col by (simp add: smooth_curves_def)
  then show ?case using Cons.IH [OF r] col by simp
qed

lemma bind_fst_err: "fst (m s) = Inl e \<Longrightarrow> fst (bind_prog m f s) = Inl e"
  by (cases "m s") (simp add: bind_prog_def)

lemma for_each_smooth_curve_exact:
  assumes "logs < length (heap s)" "wf_table (heap s ! logs)"
  shows "case smooth_curves_result savgol_filter curves (heap s ! logs) of
           Inl e \<Rightarrow> fst (for_each (smooth_curve savgol_filter logs) curves s) = Inl e
         | Inr t' \<Rightarrow> for_each (smooth_curve savgol_filter logs) curves s
                      = (Inr (), s\<lparr>heap := (heap s)[logs := t']\<rparr>)"
  using assms
proof (induction curves arbitrary: s)
  case Nil
  then show ?case by (simp add: return_val_def)
next
  case (Cons c curves)
  show ?case
  proof (cases "cv_column c")
    case None
    then show ?thesis by (simp add: smooth_curve_def bind_prog_def raise_err_def)
  next
    case (Some col)
    note step = smooth_curve_exact [OF Cons.prems Some, of savgol_filter]
    show ?thesis
    proof (cases "smooth_column_ok savgol_filter (heap s ! logs) col")
      case False
      then show ?thesis using step Some by (simp add: bind_prog_def)
    next
      case True
      let ?t = "smooth_column savgol_filter (heap s ! logs) col"
      let ?s = "s\<lparr>heap := (heap s)[logs := ?t]\<rparr>"
      have r: "logs < length (heap ?s)" using Cons.prems(1) by simp
      have t: "heap ?s ! logs = ?t" using Cons.prems(1) by simp
      have w: "wf_table (heap ?s ! logs)"
        unfolding t using smooth_column_wf(1) [OF Cons.prems(2)] .
      have eq: "for_each (smooth_curve savgol_filter logs) (c # curves) s
          = for_each (smooth_curve savgol_filter logs) curves ?s"
        using step True by (simp add: bind_prog_def)
      have res: "smooth_curves_result savgol_filter (c # curves) (heap s ! logs)
          = smooth_curves_result savgol_filter curves ?t"
        using Some True by simp
      show ?thesis
        unfolding eq res using Cons.IH [OF r w] unfolding t
        by (cases "smooth_curves_result savgol_filter curves ?t") simp_all
    qed
  qed
qed

lemma smooth_curves_result_wf:
  "wf_table t \<Longrightarrow> smooth_curves_result sg curves t = Inr t' \<Longrightarrow> wf_table t'"
  using smooth_curves_result_Inr [of sg curves t t'] smooth_curves_wf [of t sg curves] by simp

lemma smooth_track_exact:
  assumes "logs < length (heap s)" "wf_table (heap s ! logs)"
  shows "case smooth_tracks_result savgol_filter [track_info] (heap s ! logs) of
           Inl e \<Rightarrow> fst (smooth_track savgol_filter logs track_info s) = Inl e
         | Inr t' \<Rightarrow> smooth_track savgol_filter logs track_info s
                      = (Inr (), s\<lparr>heap := (heap s)[logs := t']\<rparr>)"
proof (cases "dict_get (tk_smoothing track_info) ''no'' = ''yes''")
  case False
  then show ?thesis by (simp add: smooth_track_def return_val_def)
next
  case True
  show ?thesis
  proof (cases "tk_curves track_info")
    case None
    then show ?thesis using True by (simp add: smooth_track_def raise_err_def)
  next
    case (Some curves)
    show ?thesis
      using for_each_smooth_curve_exact [OF assms, of savgol_filter curves] True Some
      by (cases "smooth_curves_result savgol_filter curves (heap s ! logs)")
         (simp_all add: smooth_track_def)
  qed
qed

lemma smooth_tracks_result_Cons:
  "smooth_tracks_result sg (tr # rest) t
     = (case smooth_tracks_result sg [tr] t of Inl e \<Rightarrow> Inl e
        | Inr t' \<Rightarrow> smooth_tracks_result sg rest t')"
  by (auto split: option.splits sum.splits)

lemma smooth_tracks_result_single_wf:
  "wf_table t \<Longrightarrow> smooth_tracks_result sg [tr] t = Inr t' \<Longrightarrow> wf_table t'"
  by (auto split: if_splits option.splits sum.splits dest: smooth_curves_result_wf)

lemma for_each_smooth_track_exact:
  assumes "logs < length (heap s)" "wf_table (heap s ! logs)"
  shows "case smooth_tracks_result savgol_filter tracks_config (heap s ! logs) of
           Inl e \<Rightarrow> fst (for_each (smooth_track savgol_filter logs) tracks_config s) = Inl e
         | Inr t' \<Rightarrow> for_each (smooth_track savgol_filter logs) tracks_config s
                      = (Inr (), s\<lparr>heap := (heap s)[logs := t']\<rparr>)"
  using assms
proof (induction tracks_config arbitrary: s)
  case Nil
  then show ?case by (simp add: return_val_def)
next
  case (Cons tr rest)
  note step = smooth_track_exact [OF Cons.prems, of savgol_filter tr]
  show ?case
  proof (cases "smooth_tracks_result savgol_filter [tr] (heap s ! logs)")
    case (Inl e)
    then have "fst (smooth_track savgol_filter logs tr s) = Inl e" using step by simp
    then have "fst (for_each (smooth_track savgol_filter logs) (tr # rest) s) = Inl e"
      by (simp add: bind_fst_err)
    then show ?thesis
      unfolding smooth_tracks_result_Cons [of savgol_filter tr rest] Inl by simp
  next
    case (Inr t1)
    let ?s = "s\<lparr>heap := (heap s)[logs := t1]\<rparr>"
    have run: "smooth_track savgol_filter logs tr s = (Inr (), ?s)" using step Inr by simp
    have r: "logs < length (heap ?s)" using Cons.prems(1) by simp
    have t: "heap ?s ! logs = t1" using Cons.prems(1) by simp
    have w: "wf_table (heap ?s ! logs)"
      unfolding t using smooth_tracks_result_single_wf [OF Cons.prems(2) Inr] .
    have eq: "for_each (smooth_track savgol_filter logs) (tr # rest) s
        = for_each (smooth_track savgol_filter logs) rest ?s"
      using run by (simp add: bind_prog_def)
    show ?thesis
      unfolding smooth_tracks_result_Cons [of savgol_filter tr rest] Inr eq
      using Cons.IH [OF r w] unfolding t
      by (cases "smooth_tracks_result savgol_filter rest t1") simp_all
  qed
qed

lemma smooth_tracks_result_Inr:
  "smooth_tracks_result sg tracks_config t = Inr t' \<Longrightarrow>
   t' = smooth_curves sg (smoothed_curves tracks_config) t
   \<and> list_all (\<lambda>c. cv_column c \<noteq> None) (smoothed_curves tracks_config)"
proof (induction tracks_config arbitrary: t)
  case Nil
  then show ?case by (simp add: smooth_curves_def smoothed_curves_def)
next
  case (Cons tr rest)
  show ?case
  proof (cases "dict_get (tk_smoothing tr) ''no'' = ''yes''")
    case False
    then have "smoothed_curves (tr # rest) = smoothed_curves rest"
      by (simp add: smoothed_curves_def)
    then show ?thesis using Cons False by simp
  next
    case True
    then obtain curves t1 where c: "tk_curves tr = Some curves"
      and r1: "smooth_curves_result sg curves t = Inr t1"
      and r2: "smooth_tracks_result sg rest t1 = Inr t'"
      using Cons.prems by (auto split: option.splits sum.splits)
    have s: "smoothed_curves (tr # rest) = curves @ smoothed_curves rest"
      using True c by (simp add: smoothed_curves_def dict_get_def)
    show ?thesis
      unfolding s using smooth_curves_result_Inr [OF r1] Cons.IH [OF r2]
      by (simp add: smooth_curves_append)
  qed
qed

lemma plot_curve_no_column:
  "cv_column curve_info = None \<Longrightarrow>
   plot_curve logs depth_column n g curve_info s = (Inl KeyError, s)"
  by (simp add: plot_curve_def raise_err_def)

lemma plot_curves_fails:
  assumes "logs < length (heap s)" "get_column (heap s ! logs) depth_column = Some ys"
    "\<not> list_all (\<lambda>curve_info. cv_column curve_info \<noteq> None) curves"
  shows "fst (plot_curves logs depth_column n g curves s) = Inl KeyError"
  using assms
proof (induction curves arbitrary: s)
  case Nil
  then show ?case by simp
next
  case (Cons c curves)
  show ?case
  proof (cases "cv_column c")
    case None
    then show ?thesis by (simp add: plot_curve_no_column bind_prog_def)
  next
    case (Some col)
    let ?s = "s\<lparr>stdout := stdout s @ curve_warning (heap s ! logs) c\<rparr>"
    have step: "plot_curve logs depth_column n g c s
           = (Inr (case get_column (heap s ! logs) col of None \<Rightarrow> None
                   | Some xs \<Rightarrow> Some (draw_curve n g c col xs ys)), ?s)"
      using Cons.prems(1,2) Some by (rule plot_curve_run)
    have "\<not> list_all (\<lambda>curve_info. cv_column curve_info \<noteq> None) curves"
      using Cons.prems(3) Some by simp
    then have "fst (plot_curves logs depth_column n g curves ?s) = Inl KeyError"
      using Cons.IH [of ?s] Cons.prems(1,2) by simp
    then show ?thesis
      using step by (auto simp add: bind_prog_def split: prod.splits sum.splits)
  qed
qed

lemma plot_track_exact:
  assumes "logs < length (heap s)" "get_column (heap s ! logs) depth_column = Some ys"
  shows "if list_all (\<lambda>curve_info. cv_column curve_info \<noteq> None) (curves_of track_info)
         then plot_track logs depth_column n track_idx track_info ax s
           = (Inr (plotted_track (heap s ! logs) ys n track_idx track_info ax),
              s\<lparr>stdout := stdout s @ track_warnings (heap s ! logs) track_info\<rparr>)
         else fst (plot_track logs depth_column n track_idx track_info ax s) = Inl KeyError"
proof (cases "list_all (\<lambda>curve_info. cv_column curve_info \<noteq> None) (curves_of track_info)")
  case True
  then show ?thesis
    using plot_curves_run [OF assms, of "curves_of track_info"]
    by (simp add: plot_track_def plotted_track_def track_warnings_def curves_of_def
        bind_prog_def return_val_def Let_def)
next
  case False
  then show ?thesis
    using plot_curves_fails [OF assms, of "curves_of track_info"]
    by (simp add: plot_track_def curves_of_def Let_def bind_fst_err)
qed

lemma plot_tracks_exact:
  assumes "logs < length (heap s)" "get_column (heap s ! logs) depth_column = Some ys"
    "track_idx + length tracks \<le> length axes"
  shows "if tracks_plot_ok tracks
         then plot_tracks logs depth_column n track_idx tracks axes s
           = (Inr (plotted_tracks (heap s ! logs) ys n track_idx tracks axes),
              s\<lparr>stdout := stdout s @ concat (map (track_warnings (heap s ! logs)) tracks)\<rparr>)
         else fst (plot_tracks logs depth_column n track_idx tracks axes s) = Inl KeyError"
  using assms
proof (induction tracks arbitrary: s track_idx axes)
  case Nil
  then show ?case by (simp add: return_val_def tracks_plot_ok_def)
next
  case (Cons tr rest)
  have i: "track_idx < length axes" using Cons.prems(3) by simp
  note step = plot_track_exact [OF Cons.prems(1,2), of tr n track_idx "axes ! track_idx"]
  show ?case
  proof (cases "list_all (\<lambda>curve_info. cv_column curve_info \<noteq> None) (curves_of tr)")
    case False
    then have "fst (plot_track logs depth_column n track_idx tr (axes ! track_idx) s) = Inl KeyError"
      using step by simp
    then show ?thesis
      using False i by (simp add: tracks_plot_ok_def bind_fst_err)
  next
    case True
    let ?ax = "plotted_track (heap s ! logs) ys n track_idx tr (axes ! track_idx)"
    let ?s = "s\<lparr>stdout := stdout s @ track_warnings (heap s ! logs) tr\<rparr>"
    have run: "plot_track logs depth_column n track_idx tr (axes ! track_idx) s = (Inr ?ax, ?s)"
      using step True by simp
    have h: "heap ?s = heap s" by simp
    have l: "Suc track_idx + length rest \<le> length (axes[track_idx := ?ax])"
      using Cons.prems(3) by simp
    have eq: "plot_tracks logs depth_column n track_idx (tr # rest) axes s
        = plot_tracks logs depth_column n (Suc track_idx) rest (axes[track_idx := ?ax]) ?s"
      using run i by (simp add: bind_prog_def)
    have ok: "tracks_plot_ok (tr # rest) = tracks_plot_ok rest"
      using True by (simp add: tracks_plot_ok_def)
    show ?thesis
      unfolding eq ok
      using Cons.IH [of ?s "Suc track_idx" "axes[track_idx := ?ax]"] Cons.prems(1,2) l
      unfolding h by simp
  qed
qed

lemma smooth_tracks_result_wf:
  assumes "wf_table t" "smooth_tracks_result sg cfg t = Inr t'"
  shows "wf_table t' \<and> index t' = index t \<and> columns t' = columns t"
  using smooth_tracks_result_Inr [OF assms(2)] smooth_curves_wf [OF assms(1), of sg "smoothed_curves cfg"]
  by simp

lemma render_logs_smoothing_fails:
  assumes "logs < length (heap s)" "wf_table (heap s ! logs)" "tracks_config \<noteq> []"
    "smooth_tracks_result savgol_filter tracks_config (heap s ! logs) = Inl e"
  shows "fst (render_logs savgol_filter logs tracks_config depth_column top_depth bottom_depth
        figure_height subplot_adjust_top major_ticks_interval minor_ticks_interval
        num_vertical_gridlines formation s) = Inl e"
proof -
  let ?n = "length tracks_config"
  obtain m where n: "?n = Suc m" using assms(3) by (cases tracks_config) auto
  have sub: "subplots ?n s = (Inr (replicate ?n new_axes), s)"
    using n by (simp add: subplots_def return_val_def)
  have lab: "label_first_axes (map (general_settings top_depth bottom_depth
        major_ticks_interval minor_ticks_interval) (replicate ?n new_axes)) s
       = (Inr (prepared_axes ?n top_depth bottom_depth major_ticks_interval minor_ticks_interval), s)"
    unfolding n by (simp add: label_first_axes_def prepared_axes_def return_val_def)
  have sm: "fst (for_each (smooth_track savgol_filter logs) tracks_config s) = Inl e"
    using for_each_smooth_track_exact [OF assms(1,2), of savgol_filter tracks_config] assms(4)
    by simp
  then obtain s2 where "for_each (smooth_track savgol_filter logs) tracks_config s = (Inl e, s2)"
    by (cases "for_each (smooth_track savgol_filter logs) tracks_config s") auto
  then show ?thesis
    unfolding render_logs_def Let_def
    using sub lab by (simp add: bind_prog_def)
qed

lemma render_logs_exact:
  assumes "logs < length (heap s)" "wf_table (heap s ! logs)" "tracks_config \<noteq> []"
    "get_column (heap s ! logs) depth_column = Some depth"
    "smooth_tracks_result savgol_filter tracks_config (heap s ! logs) = Inr tS"
  shows "\<exists>ys. get_column tS depth_column = Some ys \<and>
    (if tracks_plot_ok tracks_config
     then render_logs savgol_filter logs tracks_config depth_column top_depth bottom_depth
        figure_height subplot_adjust_top major_ticks_interval minor_ticks_interval
        num_vertical_gridlines formation s
      = (Inr (rendered_figure tS ys tracks_config top_depth bottom_depth figure_height
               subplot_adjust_top major_ticks_interval minor_ticks_interval
               num_vertical_gridlines formation),
         s\<lparr>heap := (heap s)[logs := tS],
           stdout := stdout s @ concat (map (track_warnings (heap s ! logs)) tracks_config)\<rparr>)
     else fst (render_logs savgol_filter logs tracks_config depth_column top_depth bottom_depth
        figure_height subplot_adjust_top major_ticks_interval minor_ticks_interval
        num_vertical_gridlines formation s) = Inl KeyError)"
proof -
  let ?t = "heap s ! logs"
  let ?s1 = "s\<lparr>heap := (heap s)[logs := tS]\<rparr>"
  let ?n = "length tracks_config"
  let ?axes = "prepared_axes ?n top_depth bottom_depth major_ticks_interval minor_ticks_interval"
  have keep: "columns tS = columns ?t"
    using smooth_tracks_result_wf [OF assms(2,5)] by simp
  have "get_column tS depth_column \<noteq> None"
    using assms(4) get_column_None_columns [OF keep, of depth_column] by simp
  then obtain ys where ys: "get_column tS depth_column = Some ys" by auto
  obtain m where n: "?n = Suc m" using assms(3) by (cases tracks_config) auto
  have sub: "subplots ?n s = (Inr (replicate ?n new_axes), s)"
    using n by (simp add: subplots_def return_val_def)
  have lab: "label_first_axes (map (general_settings top_depth bottom_depth
        major_ticks_interval minor_ticks_interval) (replicate ?n new_axes)) s = (Inr ?axes, s)"
    unfolding n by (simp add: label_first_axes_def prepared_axes_def return_val_def)
  have sm: "for_each (smooth_track savgol_filter logs) tracks_config s = (Inr (), ?s1)"
    using for_each_smooth_track_exact [OF assms(1,2), of savgol_filter tracks_config] assms(5)
    by simp
  have r: "logs < length (heap ?s1)" and t: "heap ?s1 ! logs = tS"
    using assms(1) by simp_all
  have ys1: "get_column (heap ?s1 ! logs) depth_column = Some ys"
    unfolding t by (rule ys)
  have l: "0 + length tracks_config \<le> length ?axes" by simp
  note pl = plot_tracks_exact [OF r ys1 l, of num_vertical_gridlines]
  have w: "map (track_warnings tS) tracks_config = map (track_warnings ?t) tracks_config"
    using track_warnings_columns [OF keep] by simp
  have "if tracks_plot_ok tracks_config
     then render_logs savgol_filter logs tracks_config depth_column top_depth bottom_depth
        figure_height subplot_adjust_top major_ticks_interval minor_ticks_interval
        num_vertical_gridlines formation s
      = (Inr (rendered_figure tS ys tracks_config top_depth bottom_depth figure_height
               subplot_adjust_top major_ticks_interval minor_ticks_interval
               num_vertical_gridlines formation),
         s\<lparr>heap := (heap s)[logs := tS],
           stdout := stdout s @ concat (map (track_warnings ?t) tracks_config)\<rparr>)
     else fst (render_logs savgol_filter logs tracks_config depth_column top_depth bottom_depth
        figure_height subplot_adjust_top major_ticks_interval minor_ticks_interval
        num_vertical_gridlines formation s) = Inl KeyError"
  proof (cases "tracks_plot_ok tracks_config")
    case True
    then show ?thesis
      unfolding render_logs_def Let_def
      using sub lab sm pl unfolding t w
      by (simp add: bind_prog_def return_val_def rendered_figure_def Let_def)
  next
    case False
    then have "fst (plot_tracks logs depth_column num_vertical_gridlines 0 tracks_config ?axes ?s1)
                 = Inl KeyError"
      using pl by simp
    then obtain s2 where
      "plot_tracks logs depth_column num_vertical_gridlines 0 tracks_config ?axes ?s1
         = (Inl KeyError, s2)"
      by (cases "plot_tracks logs depth_column num_vertical_gridlines 0 tracks_config ?axes ?s1")
         auto
    then show ?thesis
      unfolding render_logs_def Let_def
      using sub lab sm False
      by (simp add: bind_prog_def)
  qed
  with ys show ?thesis by blast
qed

lemma render_logs_no_tracks:
  "render_logs savgol_filter logs [] depth_column top_depth bottom_depth
        figure_height subplot_adjust_top major_ticks_interval minor_ticks_interval
        num_vertical_gridlines formation s = (Inl ValueError, s)"
  by (simp add: render_logs_def subplots_def raise_err_def bind_prog_def)

lemma depth_filter_dangling:
  "\<not> data < length (heap s) \<Longrightarrow>
   depth_filter data depth_column top_depth bottom_depth s = (Inl DanglingRef, s)"
  by (simp add: depth_filter_def getitem_def bind_prog_def deref_def raise_err_def)

lemma combo_plot_returns:
  assumes ret: "combo_plot savgol_filter data tracks_config depth_column top_depth bottom_depth
        figure_height subplot_adjust_top major_ticks_interval minor_ticks_interval
        num_vertical_gridlines formation s = (Inr fig, s')"
    and wf: "wf_table (heap s ! data)"
  shows "\<exists>depth ys tS. data < length (heap s)
    \<and> get_column (heap s ! data) depth_column = Some depth
    \<and> tracks_config \<noteq> []
    \<and> tracks_plot_ok tracks_config
    \<and> smooth_tracks_result savgol_filter tracks_config
         (select_rows (heap s ! data) (depth_mask depth top_depth bottom_depth)) = Inr tS
    \<and> get_column tS depth_column = Some ys
    \<and> fig = rendered_figure tS ys tracks_config top_depth bottom_depth figure_height
               subplot_adjust_top major_ticks_interval minor_ticks_interval
               num_vertical_gridlines formation
    \<and> s' = s\<lparr>heap := heap s @ [select_rows (heap s ! data) (depth_mask depth top_depth bottom_depth), tS],
             stdout := stdout s @ concat (map (track_warnings (heap s ! data)) tracks_config)\<rparr>"
proof -
  have v: "data < length (heap s)"
  proof (rule ccontr)
    assume "\<not> data < length (heap s)"
    then show False
      using ret depth_filter_dangling [of data s depth_column top_depth bottom_depth]
      by (simp add: combo_plot_def bind_prog_def)
  qed
  obtain depth where depth: "get_column (heap s ! data) depth_column = Some depth"
  proof (cases "get_column (heap s ! data) depth_column")
    case None
    then show ?thesis
      using ret depth_filter_missing [OF v None, of top_depth bottom_depth]
      by (simp add: combo_plot_def bind_prog_def)
  next
    case (Some d)
    then show ?thesis using that by simp
  qed
  let ?t = "heap s ! data"
  let ?sel = "select_rows ?t (depth_mask depth top_depth bottom_depth)"
  let ?logs = "Suc (length (heap s))"
  let ?s1 = "s\<lparr>heap := heap s @ [?sel, ?sel]\<rparr>"
  have f: "depth_filter data depth_column top_depth bottom_depth s = (Inr ?logs, ?s1)"
    using v depth by (rule depth_filter_run)
  have run: "render_logs savgol_filter ?logs tracks_config depth_column top_depth bottom_depth
        figure_height subplot_adjust_top major_ticks_interval minor_ticks_interval
        num_vertical_gridlines formation ?s1 = (Inr fig, s')"
    using ret f by (simp add: combo_plot_def bind_prog_def)
  have ne: "tracks_config \<noteq> []"
    using run render_logs_no_tracks by auto
  have r: "?logs < length (heap ?s1)" by simp
  have t: "heap ?s1 ! ?logs = ?sel" by (simp add: nth_append)
  have w: "wf_table (heap ?s1 ! ?logs)" unfolding t using wf by (rule wf_select_rows)
  have c: "get_column (heap ?s1 ! ?logs) depth_column = Some (select (depth_mask depth top_depth bottom_depth) depth)"
    unfolding t get_column_select_rows using depth by simp
  obtain tS where tS: "smooth_tracks_result savgol_filter tracks_config ?sel = Inr tS"
  proof (cases "smooth_tracks_result savgol_filter tracks_config ?sel")
    case (Inl e)
    then have "smooth_tracks_result savgol_filter tracks_config (heap ?s1 ! ?logs) = Inl e"
      unfolding t .
    from render_logs_smoothing_fails [OF r w ne this]
    have "fst (render_logs savgol_filter ?logs tracks_config depth_column top_depth bottom_depth
        figure_height subplot_adjust_top major_ticks_interval minor_ticks_interval
        num_vertical_gridlines formation ?s1) = Inl e" .
    with run show ?thesis by simp
  next
    case (Inr x)
    then show ?thesis using that by simp
  qed
  have tS1: "smooth_tracks_result savgol_filter tracks_config (heap ?s1 ! ?logs) = Inr tS"
    unfolding t by (rule tS)
  obtain ys where ys: "get_column tS depth_column = Some ys"
    and ex: "if tracks_plot_ok tracks_config
     then render_logs savgol_filter ?logs tracks_config depth_column top_depth bottom_depth
        figure_height subplot_adjust_top major_ticks_interval minor_ticks_interval
        num_vertical_gridlines formation ?s1
      = (Inr (rendered_figure tS ys tracks_config top_depth bottom_depth figure_height
               subplot_adjust_top major_ticks_interval minor_ticks_interval
               num_vertical_gridlines formation),
         ?s1\<lparr>heap := (heap ?s1)[?logs := tS],
           stdout := stdout ?s1 @ concat (map (track_warnings (heap ?s1 ! ?logs)) tracks_config)\<rparr>)
     else fst (render_logs savgol_filter ?logs tracks_config depth_column top_depth bottom_depth
        figure_height subplot_adjust_top major_ticks_interval minor_ticks_interval
        num_vertical_gridlines formation ?s1) = Inl KeyError"
    using render_logs_exact [OF r w ne c tS1] by blast
  have ok: "tracks_plot_ok tracks_config"
    using ex run by (cases "tracks_plot_ok tracks_config") simp_all
  have wn: "map (track_warnings ?sel) tracks_config = map (track_warnings ?t) tracks_config"
    using track_warnings_columns [OF columns_select_rows] by simp
  have "fig = rendered_figure tS ys tracks_config top_depth bottom_depth figure_height
               subplot_adjust_top major_ticks_interval minor_ticks_interval
               num_vertical_gridlines formation"
    and "s' = s\<lparr>heap := heap s @ [?sel, tS],
             stdout := stdout s @ concat (map (track_warnings ?t) tracks_config)\<rparr>"
    using ex ok run unfolding t wn by (simp_all add: list_update_append)
  with v depth ne ok tS ys show ?thesis by blast
qed


lemma bind_returns:
  "bind_prog m f s = (Inr y, s') \<Longrightarrow> \<exists>x s1. m s = (Inr x, s1) \<and> f x s1 = (Inr y, s')"
  by (cases "m s"; cases "fst (m s)") (auto simp: bind_prog_def)

lemma plot_tracks_length:
  "plot_tracks logs depth_column n track_idx tracks axes s = (Inr axes', s') \<Longrightarrow>
   length axes' = length axes"
proof (induction tracks arbitrary: track_idx axes s)
  case Nil
  then show ?case by (simp add: return_val_def)
next
  case (Cons tr rest)
  show ?case
  proof (cases "track_idx < length axes")
    case False
    then show ?thesis using Cons.prems by (simp add: raise_err_def)
  next
    case True
    then obtain ax s1 where
      "plot_tracks logs depth_column n (Suc track_idx) rest (axes[track_idx := ax]) s1
         = (Inr axes', s')"
      using Cons.prems bind_returns
        [of "plot_track logs depth_column n track_idx tr (axes ! track_idx)"
            "\<lambda>ax. plot_tracks logs depth_column n (Suc track_idx) rest (axes[track_idx := ax])"
            s axes' s']
      by auto
    then show ?thesis using Cons.IH by fastforce
  qed
qed

lemma label_first_axes_length:
  "label_first_axes axes s = (Inr axes', s') \<Longrightarrow> length axes' = length axes"
  by (cases axes) (auto simp: label_first_axes_def raise_err_def return_val_def)

lemma subplots_length:
  "subplots n s = (Inr axes, s') \<Longrightarrow> length axes = n \<and> n \<noteq> 0"
  by (auto simp: subplots_def raise_err_def return_val_def split: if_splits)

lemma render_logs_length:
  assumes "render_logs savgol_filter logs tracks_config depth_column top_depth bottom_depth
        figure_height subplot_adjust_top major_ticks_interval minor_ticks_interval
        num_vertical_gridlines formation s = (Inr fig, s')"
  shows "tracks_config \<noteq> [] \<and> length (fig_axes fig) = length tracks_config"
proof -
  obtain axes0 s0 where sub: "subplots (length tracks_config) s = (Inr axes0, s0)"
    and r0: "bind_prog (label_first_axes (map (general_settings top_depth bottom_depth
                        major_ticks_interval minor_ticks_interval) axes0)) (\<lambda>axes.
      bind_prog (for_each (smooth_track savgol_filter logs) tracks_config) (\<lambda>_.
      bind_prog (plot_tracks logs depth_column num_vertical_gridlines 0 tracks_config axes) (\<lambda>axes.
      return_val \<lparr>fig_size = (4 * real (length tracks_config), figure_height),
                      fig_adjust_top = subplot_adjust_top,
                      fig_axes = (case formation of None \<Rightarrow> axes
                  | Some items \<Rightarrow> map (formation_lines top_depth bottom_depth items) axes)\<rparr>))) s0
        = (Inr fig, s')"
    using assms unfolding render_logs_def Let_def by - (drule bind_returns, blast)
  obtain axes1 s1 where lab: "label_first_axes (map (general_settings top_depth bottom_depth
                        major_ticks_interval minor_ticks_interval) axes0) s0 = (Inr axes1, s1)"
    and r1: "bind_prog (for_each (smooth_track savgol_filter logs) tracks_config) (\<lambda>_.
      bind_prog (plot_tracks logs depth_column num_vertical_gridlines 0 tracks_config axes1) (\<lambda>axes.
      return_val \<lparr>fig_size = (4 * real (length tracks_config), figure_height),
                      fig_adjust_top = subplot_adjust_top,
                      fig_axes = (case formation of None \<Rightarrow> axes
                  | Some items \<Rightarrow> map (formation_lines top_depth bottom_depth items) axes)\<rparr>)) s1
        = (Inr fig, s')"
    using r0 by - (drule bind_returns, blast)
  obtain u s2 where
    r2: "bind_prog (plot_tracks logs depth_column num_vertical_gridlines 0 tracks_config axes1) (\<lambda>axes.
      return_val \<lparr>fig_size = (4 * real (length tracks_config), figure_height),
                      fig_adjust_top = subplot_adjust_top,
                      fig_axes = (case formation of None \<Rightarrow> axes
                  | Some items \<Rightarrow> map (formation_lines top_depth bottom_depth items) axes)\<rparr>) s2
        = (Inr fig, s')"
    using r1 by - (drule bind_returns, blast)
  obtain axes2 s3 where
    pl: "plot_tracks logs depth_column num_vertical_gridlines 0 tracks_config axes1 s2
           = (Inr axes2, s3)"
    and fig: "return_val \<lparr>fig_size = (4 * real (length tracks_config), figure_height),
                      fig_adjust_top = subplot_adjust_top,
                      fig_axes = (case formation of None \<Rightarrow> axes2
                  | Some items \<Rightarrow> map (formation_lines top_depth bottom_depth items) axes2)\<rparr> s3
        = (Inr fig, s')"
    using r2 by - (drule bind_returns, blast)
  have "length axes2 = length tracks_config"
    using subplots_length [OF sub] label_first_axes_length [OF lab] plot_tracks_length [OF pl]
    by simp
  moreover have "fig_axes fig = (case formation of None \<Rightarrow> axes2
                  | Some items \<Rightarrow> map (formation_lines top_depth bottom_depth items) axes2)"
    using fig by (auto simp: return_val_def)
  ultimately show ?thesis
    using subplots_length [OF sub] by (auto split: option.splits)
qed

lemma combo_plot_length:
  assumes "combo_plot savgol_filter data tracks_config depth_column top_depth bottom_depth
        figure_height subplot_adjust_top major_ticks_interval minor_ticks_interval
        num_vertical_gridlines formation s = (Inr fig, s')"
  shows "tracks_config \<noteq> [] \<and> length (fig_axes fig) = length tracks_config"
proof -
  obtain logs s1 where "render_logs savgol_filter logs tracks_config depth_column top_depth
        bottom_depth figure_height subplot_adjust_top major_ticks_interval minor_ticks_interval
        num_vertical_gridlines formation s1 = (Inr fig, s')"
    using assms unfolding combo_plot_def by - (drule bind_returns, blast)
  then show ?thesis by (rule render_logs_length)
qed

lemma combo_plot_no_tracks_raises:
  "isl (fst (combo_plot savgol_filter data [] depth_column top_depth bottom_depth
        figure_height subplot_adjust_top major_ticks_interval minor_ticks_interval
        num_vertical_gridlines formation s))"
proof (cases "fst (combo_plot savgol_filter data [] depth_column top_depth bottom_depth
        figure_height subplot_adjust_top major_ticks_interval minor_ticks_interval
        num_vertical_gridlines formation s)")
  case (Inl e)
  then show ?thesis by simp
next
  case (Inr fig)
  then have "combo_plot savgol_filter data [] depth_column top_depth bottom_depth
        figure_height subplot_adjust_top major_ticks_interval minor_ticks_interval
        num_vertical_gridlines formation s
      = (Inr fig, snd (combo_plot savgol_filter data [] depth_column top_depth bottom_depth
        figure_height subplot_adjust_top major_ticks_interval minor_ticks_interval
        num_vertical_gridlines formation s))"
    by (metis prod.collapse)
  from combo_plot_length [OF this] show ?thesis by simp
qed

lemma tracks_plot_ok_nth:
  "tracks_plot_ok cfg \<Longrightarrow> i < length cfg \<Longrightarrow>
   list_all (\<lambda>c. cv_column c \<noteq> None) (dict_get (tk_curves (cfg ! i)) [])"
  by (simp add: tracks_plot_ok_def list_all_length curves_of_def)

lemma curve_twins_lines:
  assumes "list_all (\<lambda>c. cv_column c \<noteq> None) cs"
  shows "map (\<lambda>twin_ax. (Some (tw_line_x twin_ax), Some (tw_line_y twin_ax)))
             (concat (map (curve_twin t ys n g) cs))
       = map (\<lambda>c. (get_column t (column_of c), Some ys)) (filter (column_present t) cs)"
  using assms
proof (induction cs)
  case Nil
  show ?case by simp
next
  case (Cons c cs)
  then obtain col where col: "cv_column c = Some col" by auto
  have c: "column_of c = col" by (simp add: column_of_def col dict_get_def)
  have p: "column_present t c \<longleftrightarrow> get_column t col \<noteq> None"
    unfolding get_column_in_columns by (simp add: column_present_def c)
  have tw: "curve_twin t ys n g c
              = (case get_column t col of None \<Rightarrow> [] | Some xs \<Rightarrow> [draw_curve n g c col xs ys])"
    by (simp add: curve_twin_def col)
  have l: "tw_line_x (draw_curve n g c col xs ys) = xs \<and> tw_line_y (draw_curve n g c col xs ys) = ys"
    for xs
    by (simp add: draw_curve_def Let_def twiny_def split: option.splits)
  show ?case
    using Cons p by (cases "get_column t col") (simp_all add: tw c l)
qed

lemma returned_twins_map:
  assumes "combo_plot savgol_filter data tracks_config depth_column top_depth bottom_depth
        figure_height subplot_adjust_top major_ticks_interval minor_ticks_interval
        num_vertical_gridlines formation s = (Inr fig, s')"
    and "wf_table (heap s ! data)"
    and "\<And>g c col xs ys. cv_column c = Some col \<Longrightarrow>
           f (draw_curve num_vertical_gridlines g c col xs ys) = F g c"
  shows "length (fig_axes fig) = length tracks_config
    \<and> (\<forall>i < length tracks_config.
          map f (ax_twins (fig_axes fig ! i))
            = map (F (dict_get (tk_show_grid (tracks_config ! i)) True))
                (filter (column_present (heap s ! data)) (curves_of (tracks_config ! i))))"
proof -
  let ?t = "heap s ! data"
  obtain depth ys tS where ok: "tracks_plot_ok tracks_config"
    and tS: "smooth_tracks_result savgol_filter tracks_config
         (select_rows ?t (depth_mask depth top_depth bottom_depth)) = Inr tS"
    and fig: "fig = rendered_figure tS ys tracks_config top_depth bottom_depth figure_height
               subplot_adjust_top major_ticks_interval minor_ticks_interval
               num_vertical_gridlines formation"
    using combo_plot_returns [OF assms(1,2)] by blast
  have keep: "columns tS = columns ?t"
    using smooth_tracks_result_wf [OF wf_select_rows [OF assms(2)] tS]
    by (simp add: columns_select_rows)
  have tw: "map f (ax_twins (fig_axes fig ! i))
            = map (F (dict_get (tk_show_grid (tracks_config ! i)) True))
                (filter (column_present ?t) (curves_of (tracks_config ! i)))"
    if i: "i < length tracks_config" for i
    unfolding fig twins_rendered_figure [OF i] curves_of_def
    using tracks_plot_ok_nth [OF ok i] keep assms(3) by (rule curve_twins_map)
  show ?thesis
    using tw by (simp add: fig length_rendered_axes)
qed

lemma linspace_positions:
  "linspace a b n = map (\<lambda>k. a + real k * ((b - a) / real (n - 1))) [0..<n]"
  by (simp add: linspace_def)

lemma gridlines_draw_curve:
  assumes "0 \<le> n"
  shows "(tw_xgrid (draw_curve n g c col xs ys),
          vertical_gridlines (draw_curve n g c col xs ys) vmin vmax)
       = (if dict_get (cv_show_grid c) g
          then (True, if dict_get (cv_log_scale c) False then None
                      else Some (Inr (map (\<lambda>k. vmin + real k * ((vmax - vmin) / real (nat n - 1)))
                                        [0..<nat n])))
          else (False, Some (Inr [])))"
  using assms
  by (simp add: draw_curve_def Let_def twiny_def vertical_gridlines_def tick_values_def
      linspace_positions split: option.splits)

lemma example_logs_filter:
  "depth_filter 0 ''DEPT'' 3700 4000 \<lparr>heap = [example_logs], stdout = []\<rparr>
     = (Inr 2, \<lparr>heap = [example_logs, example_filtered, example_filtered], stdout = []\<rparr>)"
  using depth_filter_run [of 0 "\<lparr>heap = [example_logs], stdout = []\<rparr>" "''DEPT''"
      "[Flt 3690, Flt 3700, Flt 3750, Flt 3999, Flt 4010]" 3700 4000]
  by (simp add: get_column_def select_rows_def depth_mask_def and_mask_def ge_scalar_def
      le_scalar_def)


lemma example_logs_returns:
  "\<exists>fig s'. combo_plot example_savgol 0 example_tracks ''DEPT'' 3700 4000 8 (17 / 20) 50 10 5 None
       \<lparr>heap = [example_logs], stdout = []\<rparr> = (Inr fig, s')"
  using combo_plot_run [of 0 "\<lparr>heap = [example_logs], stdout = []\<rparr>" "''DEPT''"
      "[Flt 3690, Flt 3700, Flt 3750, Flt 3999, Flt 4010]" example_savgol example_tracks
      3700 4000 8 "17 / 20" 50 10 5 None] example_savgol_ok
  by (simp add: wf_table_def columns_def config_ok_def get_column_def) blast


section \<open>The claims\<close>

subsection \<open>The labeller\<close>

text \<open>
  C1 (amended). For every input table that has a \<^verbatim>\<open>DEPT\<close> column and every sequence of
  (top, base) intervals, the labeller returns a new table, a copy of the input in which
  the integer class column holds 1 on every row whose depth lies in some interval
  (\<open>top \<le> depth \<le> base\<close>) and 0 on every other row. The row labels and every other
  column are those of the input. The class column is the column the labeller writes,
  \<^verbatim>\<open>hydrocarbon_formation_class\<close>: it is appended as one more column when the input has
  no column of that name, and takes the place of that column when it has.
\<close>

theorem labeller_classifies_rows:
  assumes "data < length (heap s)" and "wf_table (heap s ! data)"
    and "get_column (heap s ! data) ''DEPT'' = Some dept"
  shows "let t = heap s ! data;
             t' = t\<lparr>cols := put_column (cols t) ''hydrocarbon_formation_class''
                            (map (zone_class zones) dept)\<rparr>
         in add_productive_zones data zones s = (Inr (length (heap s)), s\<lparr>heap := heap s @ [t']\<rparr>)
          \<and> index t' = index t
          \<and> get_column t' ''hydrocarbon_formation_class'' = Some (map (zone_class zones) dept)
          \<and> (\<forall>c. c \<noteq> ''hydrocarbon_formation_class'' \<longrightarrow> get_column t' c = get_column t c)
          \<and> columns t' = (if ''hydrocarbon_formation_class'' \<in> set (columns t) then columns t
                          else columns t @ [''hydrocarbon_formation_class''])"
proof -
  have "length dept = length (index (heap s ! data))"
    using assms(2,3) by (rule wf_column_length)
  then show ?thesis
    using add_productive_zones_run [OF assms(1,3), of zones]
    by (simp add: Let_def mark_all_zeros get_column_put columns_put)
qed

text \<open>
  The specification's example: depths 3690, 3700, 3750, 3999, 4010 and the interval
  (3700, 4000) give the classes 0, 1, 1, 1, 0, in a new last column.
\<close>

theorem labeller_classifies_rows_witness:
  "add_productive_zones 0 [(3700, 4000)] \<lparr>heap = [example_table], stdout = []\<rparr>
     = (Inr 1, \<lparr>heap = [example_table, example_labelled], stdout = []\<rparr>)"
  using labeller_classifies_rows [of 0 "\<lparr>heap = [example_table], stdout = []\<rparr>"
      "[Flt 3690, Flt 3700, Flt 3750, Flt 3999, Flt 4010]" "[(3700, 4000)]"]
  by (simp add: wf_table_def columns_def get_column_def zone_class_def in_interval_def Let_def)

text \<open>
  C1 as stated fails: labelling a table that already has the class column (the
  labeller's own output) returns a table equal to the input, with the same two columns
  and not one more, and no column of the result is named \<^verbatim>\<open>formation_class\<close>.
\<close>

theorem labeller_additional_column_counterexample:
  "add_productive_zones 0 [(3700, 4000)] \<lparr>heap = [example_labelled], stdout = []\<rparr>
     = (Inr 1, \<lparr>heap = [example_labelled, example_labelled], stdout = []\<rparr>)
   \<and> columns example_labelled = [''DEPT'', ''hydrocarbon_formation_class'']
   \<and> get_column example_labelled ''formation_class'' = None"
  using add_productive_zones_run [of 0 "\<lparr>heap = [example_labelled], stdout = []\<rparr>"
      "[Flt 3690, Flt 3700, Flt 3750, Flt 3999, Flt 4010]" "[(3700, 4000)]"]
  by (simp add: columns_def get_column_def mark_def in_interval_def)

text \<open>
  C8. The labeller is idempotent: applied to its own output with the same intervals it
  returns, and the returned table has the same class column as the first result (the
  whole table is the same).
\<close>

theorem labeller_idempotent:
  assumes "add_productive_zones data zones s = (Inr r1, s1)"
  shows "\<exists>r2 s2. add_productive_zones r1 zones s1 = (Inr r2, s2)
           \<and> r1 < length (heap s1) \<and> r2 < length (heap s2)
           \<and> get_column (heap s2 ! r2) ''hydrocarbon_formation_class''
               = get_column (heap s1 ! r1) ''hydrocarbon_formation_class''
           \<and> get_column (heap s1 ! r1) ''hydrocarbon_formation_class'' \<noteq> None
           \<and> heap s2 ! r2 = heap s1 ! r1"
proof -
  have d: "data < length (heap s)"
    using assms add_productive_zones_dangling [of data s zones] by (cases "data < length (heap s)") auto
  let ?t = "heap s ! data"
  show ?thesis
  proof (cases "get_column ?t ''DEPT''")
    case (Some dept)
    let ?lab = "mark_all zones dept (replicate (length (index ?t)) (IntV 0))"
    let ?t1 = "?t\<lparr>cols := put_column (cols ?t) ''hydrocarbon_formation_class'' ?lab\<rparr>"
    have 1: "r1 = length (heap s)" "s1 = s\<lparr>heap := heap s @ [?t1]\<rparr>"
      using assms add_productive_zones_run [OF d Some, of zones] by simp_all
    have r: "r1 < length (heap s1)" and t: "heap s1 ! r1 = ?t1" by (simp_all add: 1)
    have dept: "get_column (heap s1 ! r1) ''DEPT'' = Some dept"
      unfolding t using Some by (simp add: get_column_put)
    show ?thesis
      using add_productive_zones_run [OF r dept, of zones] r
      unfolding t by (simp add: put_column_twice get_column_put)
  next
    case None
    then have z: "zones = []"
      using assms add_productive_zones_no_DEPT [OF d None, of zones] by (cases zones) auto
    let ?t1 = "set_scalar ?t ''hydrocarbon_formation_class'' (IntV 0)"
    have 1: "r1 = length (heap s)" "s1 = s\<lparr>heap := heap s @ [?t1]\<rparr>"
      using assms add_productive_zones_no_zones [OF d] by (simp_all add: z)
    have r: "r1 < length (heap s1)" and t: "heap s1 ! r1 = ?t1" by (simp_all add: 1)
    show ?thesis
      using add_productive_zones_no_zones [OF r] r
      unfolding t z by (simp add: set_scalar_def put_column_twice get_column_put)
  qed
qed

text \<open>Labelling the labelled example again returns the same table.\<close>

theorem labeller_idempotent_witness:
  "\<exists>r2 s2. add_productive_zones 1 [(3700, 4000)]
               \<lparr>heap = [example_table, example_labelled], stdout = []\<rparr> = (Inr r2, s2)
           \<and> r2 < length (heap s2)
           \<and> get_column (heap s2 ! r2) ''hydrocarbon_formation_class''
               = Some [IntV 0, IntV 1, IntV 1, IntV 1, IntV 0]
           \<and> heap s2 ! r2 = example_labelled"
proof -
  have "add_productive_zones 0 [(3700, 4000)] \<lparr>heap = [example_table], stdout = []\<rparr>
          = (Inr 1, \<lparr>heap = [example_table, example_labelled], stdout = []\<rparr>)"
    using add_productive_zones_run [of 0 "\<lparr>heap = [example_table], stdout = []\<rparr>"
      "[Flt 3690, Flt 3700, Flt 3750, Flt 3999, Flt 4010]" "[(3700, 4000)]"]
    by (simp add: get_column_def mark_def in_interval_def)
  from labeller_idempotent [OF this] show ?thesis by (simp add: get_column_def)
qed

text \<open>
  C10. A row whose depth is missing gets the class 0, whatever the intervals: a missing
  depth passes neither comparison of any interval.
\<close>

theorem labeller_missing_depth:
  assumes "data < length (heap s)" and "wf_table (heap s ! data)"
    and "get_column (heap s ! data) ''DEPT'' = Some dept"
    and "i < length dept" and "dept ! i = NaN"
  shows "\<exists>r s' lab. add_productive_zones data zones s = (Inr r, s') \<and> r < length (heap s')
           \<and> get_column (heap s' ! r) ''hydrocarbon_formation_class'' = Some lab
           \<and> length lab = length dept \<and> lab ! i = IntV 0"
proof -
  have "length dept = length (index (heap s ! data))"
    using assms(2,3) by (rule wf_column_length)
  then show ?thesis
    using add_productive_zones_run [OF assms(1,3), of zones] assms(4,5)
    by (simp add: mark_all_zeros get_column_put zone_class_def in_interval_def)
qed

text \<open>The second row has no depth and gets 0, although the interval covers every depth.\<close>

theorem labeller_missing_depth_witness:
  "\<exists>r s' lab. add_productive_zones 0 [(0, 5000)]
       \<lparr>heap = [\<lparr>index = [0, 1], cols = [(''DEPT'', [Flt 3700, NaN])]\<rparr>], stdout = []\<rparr> = (Inr r, s')
     \<and> r < length (heap s')
     \<and> get_column (heap s' ! r) ''hydrocarbon_formation_class'' = Some lab
     \<and> length lab = length [Flt 3700, NaN] \<and> lab ! 1 = IntV 0"
  using labeller_missing_depth [of 0
      "\<lparr>heap = [\<lparr>index = [0, 1], cols = [(''DEPT'', [Flt 3700, NaN])]\<rparr>], stdout = []\<rparr>"
      "[Flt 3700, NaN]" 1 "[(0, 5000)]"]
  by (simp add: wf_table_def columns_def get_column_def)

subsection \<open>Both functions\<close>

text \<open>
  C4. Neither the labeller nor the renderer changes an object that exists before the
  call: whatever the call does, returning or raising, the heap after it is the heap
  before it followed by the objects the call made, so every table that existed (the
  caller's input among them) has the columns and values it had. The copy, the class
  column, the filtered rows and the smoothing are all written to objects made by the call.
\<close>

theorem inputs_are_not_mutated:
  "prefix (heap s) (heap (snd (add_productive_zones data productive_zones s)))
   \<and> (\<forall>r < length (heap s).
        heap (snd (add_productive_zones data productive_zones s)) ! r = heap s ! r)
   \<and> prefix (heap s) (heap (snd (combo_plot savgol_filter data tracks_config depth_column
        top_depth bottom_depth figure_height subplot_adjust_top major_ticks_interval
        minor_ticks_interval num_vertical_gridlines formation s)))
   \<and> (\<forall>r < length (heap s).
        heap (snd (combo_plot savgol_filter data tracks_config depth_column
          top_depth bottom_depth figure_height subplot_adjust_top major_ticks_interval
          minor_ticks_interval num_vertical_gridlines formation s)) ! r = heap s ! r)"
proof -
  have nth: "\<forall>r < length h. xs ! r = h ! r" if "prefix h xs" for h xs :: "table list"
    using that by (auto simp: prefix_def nth_append)
  have 1: "prefix (heap s) (heap (snd (add_productive_zones data productive_zones s)))"
    using frame_add_productive_zones [of "heap s" data productive_zones]
    by (simp add: frame_ret_def)
  have 2: "prefix (heap s) (heap (snd (combo_plot savgol_filter data tracks_config depth_column
        top_depth bottom_depth figure_height subplot_adjust_top major_ticks_interval
        minor_ticks_interval num_vertical_gridlines formation s)))"
    using frame_combo_plot [of "heap s" savgol_filter data tracks_config depth_column
        top_depth bottom_depth figure_height subplot_adjust_top major_ticks_interval
        minor_ticks_interval num_vertical_gridlines formation]
    by (simp add: frame_ret_def)
  show ?thesis using 1 2 nth [OF 1] nth [OF 2] by simp
qed

text \<open>
  The noisy table is unchanged by the labeller and by a rendering that smooths its log.
\<close>

theorem inputs_are_not_mutated_witness:
  "heap (snd (add_productive_zones 0 [(3700, 4000)] \<lparr>heap = [example_noisy], stdout = []\<rparr>)) ! 0
     = example_noisy
   \<and> heap (snd (combo_plot example_savgol 0
        [\<lparr>tk_title = None, tk_show_grid = None, tk_smoothing = Some ''yes'',
          tk_curves = Some [plain_curve ''GR'']\<rparr>]
        ''DEPT'' 3700 4000 8 (17 / 20) 50 10 5 None \<lparr>heap = [example_noisy], stdout = []\<rparr>)) ! 0
     = example_noisy"
  using inputs_are_not_mutated [of "\<lparr>heap = [example_noisy], stdout = []\<rparr>" 0 "[(3700, 4000)]"
      example_savgol "[\<lparr>tk_title = None, tk_show_grid = None, tk_smoothing = Some ''yes'',
          tk_curves = Some [plain_curve ''GR'']\<rparr>]" "''DEPT''" 3700 4000 8 "17 / 20" 50 10 5 None]
  by simp

subsection \<open>The renderer\<close>

text \<open>
  A call of the renderer is well-formed when the input table is a table (\<open>wf_table\<close>) with
  unique row labels and the depth column, the list of tracks is not empty, every track
  has its list of curves and every curve its column key (\<open>config_ok\<close>), and the filter
  returns as many values as it is given (\<open>savgol_ok\<close>). Where a statement is about what a
  call has done and not about whether it returns, it is stated of every call that
  returns, with no hypothesis on the configuration.
\<close>

text \<open>
  C7. Line 65 leaves in the working copy exactly the rows whose depth \<open>d\<close> satisfies
  \<open>top_depth \<le> d \<le> bottom_depth\<close>, both ends included, in their order: the row labels
  and every column are those of the input restricted to these rows, in a new object.
  The later steps work on this copy. Whenever the renderer returns, for an input that
  is a table: the smoothing has read this object and written to it and to no other,
  and has left its row labels and its column names as the filter made them; there is
  one track region for each track; and the line drawn for each curve has as its values
  the curve's column of this object and as its depths the depth column of this object.
\<close>

theorem renderer_filters_depth_range:
  assumes "data < length (heap s)"
    and "get_column (heap s ! data) depth_column = Some depth"
  shows "\<exists>logs s1.
      depth_filter data depth_column top_depth bottom_depth s = (Inr logs, s1)
    \<and> length (heap s) \<le> logs \<and> logs < length (heap s1)
    \<and> index (heap s1 ! logs)
        = map fst (filter (\<lambda>(l, d). in_interval d (top_depth, bottom_depth))
                     (zip (index (heap s ! data)) depth))
    \<and> columns (heap s1 ! logs) = columns (heap s ! data)
    \<and> (\<forall>c. get_column (heap s1 ! logs) c
             = map_option (\<lambda>vs. map fst (filter (\<lambda>(v, d). in_interval d (top_depth, bottom_depth))
                                            (zip vs depth)))
                 (get_column (heap s ! data) c))
    \<and> (\<forall>fig s'. wf_table (heap s ! data)
          \<and> combo_plot savgol_filter data tracks_config depth_column top_depth bottom_depth
               figure_height subplot_adjust_top major_ticks_interval minor_ticks_interval
               num_vertical_gridlines formation s = (Inr fig, s')
        \<longrightarrow> heap s' = (heap s1)[logs :=
                 fold (\<lambda>curve_info t. smooth_column savgol_filter t (column_of curve_info))
                   (smoothed_curves tracks_config) (heap s1 ! logs)]
          \<and> index (heap s' ! logs) = index (heap s1 ! logs)
          \<and> columns (heap s' ! logs) = columns (heap s1 ! logs)
          \<and> length (fig_axes fig) = length tracks_config
          \<and> (\<forall>i < length tracks_config.
                map (\<lambda>twin_ax. (Some (tw_line_x twin_ax), Some (tw_line_y twin_ax)))
                    (ax_twins (fig_axes fig ! i))
                  = map (\<lambda>curve_info. (get_column (heap s' ! logs) (column_of curve_info),
                                         get_column (heap s' ! logs) depth_column))
                      (filter (column_present (heap s' ! logs))
                         (curves_of (tracks_config ! i)))))"
proof -
  let ?sel = "select_rows (heap s ! data) (depth_mask depth top_depth bottom_depth)"
  let ?s1 = "s\<lparr>heap := heap s @ [?sel, ?sel]\<rparr>"
  let ?logs = "Suc (length (heap s))"
  have f: "depth_filter data depth_column top_depth bottom_depth s = (Inr ?logs, ?s1)"
    using assms by (rule depth_filter_run)
  have t: "heap ?s1 ! ?logs = ?sel" by (simp add: nth_append)
  have sel: "select (depth_mask depth top_depth bottom_depth) xs
      = map fst (filter (\<lambda>(x, d). in_interval d (top_depth, bottom_depth)) (zip xs depth))" for xs :: "'a list"
    unfolding depth_mask_def by (rule select_range)
  have c: "get_column ?sel c
             = map_option (\<lambda>vs. map fst (filter (\<lambda>(v, d). in_interval d (top_depth, bottom_depth))
                                            (zip vs depth)))
                 (get_column (heap s ! data) c)" for c
    unfolding get_column_select_rows by (cases "get_column (heap s ! data) c") (simp_all add: sel)
  have i: "index ?sel = map fst (filter (\<lambda>(l, d). in_interval d (top_depth, bottom_depth))
                     (zip (index (heap s ! data)) depth))"
    by (simp add: index_select_rows sel)
  have l: "length (heap s) \<le> ?logs" "?logs < length (heap ?s1)"
    by simp_all
  have later: "heap s' = (heap ?s1)[?logs :=
                 fold (\<lambda>curve_info t. smooth_column savgol_filter t (column_of curve_info))
                   (smoothed_curves tracks_config) ?sel]
          \<and> index (heap s' ! ?logs) = index ?sel
          \<and> columns (heap s' ! ?logs) = columns ?sel
          \<and> length (fig_axes fig) = length tracks_config
          \<and> (\<forall>i < length tracks_config.
                map (\<lambda>twin_ax. (Some (tw_line_x twin_ax), Some (tw_line_y twin_ax)))
                    (ax_twins (fig_axes fig ! i))
                  = map (\<lambda>curve_info. (get_column (heap s' ! ?logs) (column_of curve_info),
                                         get_column (heap s' ! ?logs) depth_column))
                      (filter (column_present (heap s' ! ?logs))
                         (curves_of (tracks_config ! i))))"
    if wf: "wf_table (heap s ! data)"
      and ret: "combo_plot savgol_filter data tracks_config depth_column top_depth bottom_depth
               figure_height subplot_adjust_top major_ticks_interval minor_ticks_interval
               num_vertical_gridlines formation s = (Inr fig, s')" for fig s'
  proof -
    obtain depth' ys tS where d': "get_column (heap s ! data) depth_column = Some depth'"
      and ok: "tracks_plot_ok tracks_config"
      and tS: "smooth_tracks_result savgol_filter tracks_config
         (select_rows (heap s ! data) (depth_mask depth' top_depth bottom_depth)) = Inr tS"
      and ys: "get_column tS depth_column = Some ys"
      and fig: "fig = rendered_figure tS ys tracks_config top_depth bottom_depth figure_height
               subplot_adjust_top major_ticks_interval minor_ticks_interval
               num_vertical_gridlines formation"
      and s': "s' = s\<lparr>heap := heap s @ [select_rows (heap s ! data)
                                            (depth_mask depth' top_depth bottom_depth), tS],
             stdout := stdout s @ concat (map (track_warnings (heap s ! data)) tracks_config)\<rparr>"
      using combo_plot_returns [OF ret wf] by blast
    have dd: "depth' = depth" using d' assms(2) by simp
    note r = smooth_tracks_result_Inr [OF tS [unfolded dd]]
    have fold: "tS = fold (\<lambda>curve_info t. smooth_column savgol_filter t (column_of curve_info))
                   (smoothed_curves tracks_config) ?sel"
      using r smooth_curves_fold [of "smoothed_curves tracks_config" savgol_filter ?sel] by simp
    have keep: "index tS = index ?sel" "columns tS = columns ?sel"
      using smooth_tracks_result_wf [OF wf_select_rows [OF wf] tS [unfolded dd]] by simp_all
    have w: "heap s' ! ?logs = tS" unfolding s' by (simp add: nth_append)
    have h: "heap s' = (heap ?s1)[?logs := tS]"
      unfolding s' dd by (simp add: list_update_append)
    have tw: "map (\<lambda>twin_ax. (Some (tw_line_x twin_ax), Some (tw_line_y twin_ax)))
                    (ax_twins (fig_axes fig ! i))
                  = map (\<lambda>curve_info. (get_column tS (column_of curve_info),
                                         get_column tS depth_column))
                      (filter (column_present tS) (curves_of (tracks_config ! i)))"
      if i: "i < length tracks_config" for i
      unfolding fig twins_rendered_figure [OF i] curves_of_def ys
      using tracks_plot_ok_nth [OF ok i] by (rule curve_twins_lines)
    show ?thesis
      unfolding w using h fold keep tw by (simp add: fig length_rendered_axes)
  qed
  show ?thesis
    apply (rule exI [of _ ?logs])
    apply (rule exI [of _ ?s1])
    unfolding t
    using f l i columns_select_rows [of "heap s ! data"] c later
    by blast
qed

text \<open>
  Of the depths 3690, 3700, 3750, 3999, 4010 the range from 3700 to 4000 keeps the rows
  labelled 1, 2 and 3, and the three curves drawn on \<^verbatim>\<open>GR\<close> have the values and the depths of
  these three rows.
\<close>

theorem renderer_filters_depth_range_witness:
  "\<exists>logs s1. depth_filter 0 ''DEPT'' 3700 4000 \<lparr>heap = [example_logs], stdout = []\<rparr> = (Inr logs, s1)
     \<and> index (heap s1 ! logs) = [1, 2, 3]
     \<and> get_column (heap s1 ! logs) ''DEPT'' = Some [Flt 3700, Flt 3750, Flt 3999]
     \<and> get_column (heap s1 ! logs) ''GR'' = Some [Flt 60, NaN, Flt 80]
     \<and> (\<exists>fig s'. combo_plot example_savgol 0 example_tracks ''DEPT'' 3700 4000 8 (17 / 20)
             50 10 5 None \<lparr>heap = [example_logs], stdout = []\<rparr> = (Inr fig, s')
          \<and> heap s' ! logs = example_filtered
          \<and> map (\<lambda>twin_ax. (Some (tw_line_x twin_ax), Some (tw_line_y twin_ax)))
                (ax_twins (fig_axes fig ! 0))
              = [(Some [Flt 60, NaN, Flt 80], Some [Flt 3700, Flt 3750, Flt 3999]),
                 (Some [Flt 60, NaN, Flt 80], Some [Flt 3700, Flt 3750, Flt 3999]),
                 (Some [Flt 60, NaN, Flt 80], Some [Flt 3700, Flt 3750, Flt 3999])]
          \<and> ax_twins (fig_axes fig ! 1) = [])"
proof -
  let ?s = "\<lparr>heap = [example_logs], stdout = []\<rparr>"
  let ?d = "[Flt 3690, Flt 3700, Flt 3750, Flt 3999, Flt 4010]"
  obtain fig s' where run: "combo_plot example_savgol 0 example_tracks ''DEPT'' 3700 4000 8
      (17 / 20) 50 10 5 None ?s = (Inr fig, s')"
    using example_logs_returns by blast
  have v: "0 < length (heap ?s)" by simp
  have d: "get_column (heap ?s ! 0) ''DEPT'' = Some ?d"
    by (simp add: get_column_def)
  have wf: "wf_table (heap ?s ! 0)" by (simp add: wf_table_def columns_def)
  from renderer_filters_depth_range [OF v d, of 3700 4000 example_savgol
      example_tracks 8 "17 / 20" 50 10 5 None]
  obtain logs s1 where
    f: "depth_filter 0 ''DEPT'' 3700 4000 ?s = (Inr logs, s1)"
    and later: "\<forall>fig s'. wf_table (heap ?s ! 0)
          \<and> combo_plot example_savgol 0 example_tracks ''DEPT'' 3700 4000
               8 (17 / 20) 50 10 5 None ?s = (Inr fig, s')
        \<longrightarrow> heap s' = (heap s1)[logs :=
                 fold (\<lambda>curve_info t. smooth_column example_savgol t (column_of curve_info))
                   (smoothed_curves example_tracks) (heap s1 ! logs)]
          \<and> index (heap s' ! logs) = index (heap s1 ! logs)
          \<and> columns (heap s' ! logs) = columns (heap s1 ! logs)
          \<and> length (fig_axes fig) = length example_tracks
          \<and> (\<forall>i < length example_tracks.
                map (\<lambda>twin_ax. (Some (tw_line_x twin_ax), Some (tw_line_y twin_ax)))
                    (ax_twins (fig_axes fig ! i))
                  = map (\<lambda>curve_info. (get_column (heap s' ! logs) (column_of curve_info),
                                         get_column (heap s' ! logs) ''DEPT''))
                      (filter (column_present (heap s' ! logs))
                         (curves_of (example_tracks ! i))))"
    by (elim exE conjE) (rule that, assumption, assumption)
  have l: "logs = 2" and s1: "s1 = \<lparr>heap = [example_logs, example_filtered, example_filtered], stdout = []\<rparr>"
    using f unfolding example_logs_filter by simp_all
  note lt = later [rule_format, OF conjI [OF wf run], unfolded l s1]
  have sm: "fold (\<lambda>curve_info t. smooth_column example_savgol t (column_of curve_info))
                   (smoothed_curves example_tracks) example_filtered = example_filtered"
    by (simp add: smoothed_curves_def dict_get_def column_of_def smooth_column_def get_column_def)
  have h: "heap s' = [example_logs, example_filtered, example_filtered]"
    using lt [THEN conjunct1]
    by (simp add: smoothed_curves_def dict_get_def column_of_def smooth_column_def get_column_def)
  have w: "heap s' ! 2 = example_filtered" unfolding h by simp
  note tw = lt [THEN conjunct2, THEN conjunct2, THEN conjunct2, THEN conjunct2, unfolded w]
  have c0: "filter (column_present example_filtered) (curves_of (example_tracks ! 0))
              = take 3 example_curves"
    by (simp add: column_present_def columns_def column_of_def dict_get_def curves_of_def)
  have c1: "filter (column_present example_filtered) (curves_of (example_tracks ! 1)) = []"
    by (simp add: column_present_def columns_def column_of_def dict_get_def curves_of_def)
  have t0: "map (\<lambda>twin_ax. (Some (tw_line_x twin_ax), Some (tw_line_y twin_ax)))
                (ax_twins (fig_axes fig ! 0))
              = [(Some [Flt 60, NaN, Flt 80], Some [Flt 3700, Flt 3750, Flt 3999]),
                 (Some [Flt 60, NaN, Flt 80], Some [Flt 3700, Flt 3750, Flt 3999]),
                 (Some [Flt 60, NaN, Flt 80], Some [Flt 3700, Flt 3750, Flt 3999])]"
    using tw [rule_format, of 0] unfolding c0
    by (simp add: get_column_def column_of_def dict_get_def)
  have t1: "ax_twins (fig_axes fig ! 1) = []"
    using tw [rule_format, of 1] unfolding c1 by simp
  have a: "index (heap s1 ! logs) = [1, 2, 3]"
    and b: "get_column (heap s1 ! logs) ''DEPT'' = Some [Flt 3700, Flt 3750, Flt 3999]"
    and c: "get_column (heap s1 ! logs) ''GR'' = Some [Flt 60, NaN, Flt 80]"
    unfolding l s1 by (simp_all add: get_column_def)
  have w': "heap s' ! logs = example_filtered" unfolding l by (rule w)
  show ?thesis
    by (rule exI [of _ logs], rule exI [of _ s1], intro conjI, rule f, rule a, rule b, rule c,
        rule exI [of _ fig], rule exI [of _ s'], intro conjI, rule run, rule w', rule t0, rule t1)
qed






text \<open>
  C3 (amended). Called with an empty list of tracks the renderer raises and returns no
  figure, whatever the table: ValueError from the layout, which refuses a grid of no
  columns, when the table has the depth column. Whenever the renderer returns a
  figure, the list of tracks is not empty and the figure has exactly one track region
  for each track.
\<close>

theorem renderer_one_region_per_track:
  "isl (fst (combo_plot savgol_filter data [] depth_column top_depth bottom_depth
        figure_height subplot_adjust_top major_ticks_interval minor_ticks_interval
        num_vertical_gridlines formation s))
   \<and> (data < length (heap s) \<and> get_column (heap s ! data) depth_column \<noteq> None
        \<longrightarrow> fst (combo_plot savgol_filter data [] depth_column top_depth bottom_depth
        figure_height subplot_adjust_top major_ticks_interval minor_ticks_interval
        num_vertical_gridlines formation s) = Inl ValueError)
   \<and> (\<forall>fig s'.
        combo_plot savgol_filter data tracks_config depth_column top_depth bottom_depth
          figure_height subplot_adjust_top major_ticks_interval minor_ticks_interval
          num_vertical_gridlines formation s = (Inr fig, s')
        \<longrightarrow> tracks_config \<noteq> [] \<and> length (fig_axes fig) = length tracks_config)"
proof (intro conjI allI impI)
  show "isl (fst (combo_plot savgol_filter data [] depth_column top_depth bottom_depth
        figure_height subplot_adjust_top major_ticks_interval minor_ticks_interval
        num_vertical_gridlines formation s))"
    by (rule combo_plot_no_tracks_raises)
next
  assume a: "data < length (heap s) \<and> get_column (heap s ! data) depth_column \<noteq> None"
  then obtain depth where "get_column (heap s ! data) depth_column = Some depth" by auto
  with a show "fst (combo_plot savgol_filter data [] depth_column top_depth bottom_depth
        figure_height subplot_adjust_top major_ticks_interval minor_ticks_interval
        num_vertical_gridlines formation s) = Inl ValueError"
    using combo_plot_no_tracks by blast
next
  fix fig s'
  assume r: "combo_plot savgol_filter data tracks_config depth_column top_depth bottom_depth
          figure_height subplot_adjust_top major_ticks_interval minor_ticks_interval
          num_vertical_gridlines formation s = (Inr fig, s')"
  show "tracks_config \<noteq> []" using combo_plot_length [OF r] by simp
  show "length (fig_axes fig) = length tracks_config" using combo_plot_length [OF r] by simp
qed

text \<open>No track: ValueError. Two tracks: a figure of two track regions.\<close>

theorem renderer_one_region_per_track_witness:
  "fst (combo_plot example_savgol 0 [] ''DEPT'' 3700 4000 8 (17 / 20) 50 10 5 None
       \<lparr>heap = [example_logs], stdout = []\<rparr>) = Inl ValueError
   \<and> (\<exists>fig s'. combo_plot example_savgol 0 example_tracks ''DEPT'' 3700 4000 8 (17 / 20) 50 10 5 None
       \<lparr>heap = [example_logs], stdout = []\<rparr> = (Inr fig, s')
     \<and> length (fig_axes fig) = length example_tracks)"
proof -
  let ?s = "\<lparr>heap = [example_logs], stdout = []\<rparr>"
  obtain fig s' where run: "combo_plot example_savgol 0 example_tracks ''DEPT'' 3700 4000 8
      (17 / 20) 50 10 5 None ?s = (Inr fig, s')"
    using example_logs_returns by blast
  note t = renderer_one_region_per_track [of example_savgol 0 "''DEPT''" 3700 4000 8 "17 / 20"
      50 10 5 None ?s example_tracks]
  have 1: "fst (combo_plot example_savgol 0 [] ''DEPT'' 3700 4000 8 (17 / 20) 50 10 5 None ?s)
             = Inl ValueError"
    using t by (simp add: get_column_def)
  have 2: "length (fig_axes fig) = length example_tracks"
    using t run by blast
  show ?thesis using 1 2 run by blast
qed

text \<open>
  C3 as stated fails: with an empty tracks list the call raises.
\<close>

theorem renderer_no_tracks_counterexample:
  "fst (combo_plot example_savgol 0 [] ''DEPT'' 3700 4000 8 (17 / 20) 50 10 5 None
       \<lparr>heap = [example_logs], stdout = []\<rparr>) = Inl ValueError"
  using combo_plot_no_tracks [of 0 "\<lparr>heap = [example_logs], stdout = []\<rparr>" "''DEPT''"
      "[Flt 3690, Flt 3700, Flt 3750, Flt 3999, Flt 4010]"]
  by (simp add: get_column_def)

text \<open>
  C2 (amended). Whenever the renderer returns, for an input that is a table and a
  number \<open>num_vertical_gridlines\<close> that is not negative: every curve that is drawn has its
  vertical grid on exactly when its show_grid holds (the curve's own setting if
  present, else the track's, else true). A curve with a linear scale whose show_grid
  holds has exactly \<open>num_vertical_gridlines\<close> vertical gridlines, evenly spaced from one
  end \<open>vmin\<close> of the view interval of its axis to the other end \<open>vmax\<close>; a curve whose
  show_grid does not hold has none. Where the gridlines of a curve with a logarithmic
  scale stand is the choice of the library's logarithmic locator, which the model does
  not have (\<open>None\<close>): nothing is said of their number.
\<close>

theorem gridlines_follow_show_grid:
  assumes "combo_plot savgol_filter data tracks_config depth_column top_depth bottom_depth
        figure_height subplot_adjust_top major_ticks_interval minor_ticks_interval
        num_vertical_gridlines formation s = (Inr fig, s')"
    and "wf_table (heap s ! data)" and "0 \<le> num_vertical_gridlines"
  shows "length (fig_axes fig) = length tracks_config
    \<and> (\<forall>i < length tracks_config.
          map (\<lambda>twin_ax. (tw_xgrid twin_ax, vertical_gridlines twin_ax vmin vmax))
              (ax_twins (fig_axes fig ! i))
            = map (\<lambda>c. if dict_get (cv_show_grid c) (dict_get (tk_show_grid (tracks_config ! i)) True)
                        then (True,
                              if dict_get (cv_log_scale c) False then None
                              else Some (Inr (map (\<lambda>k. vmin + real k *
                                      ((vmax - vmin) / real (nat num_vertical_gridlines - 1)))
                                    [0..<nat num_vertical_gridlines])))
                        else (False, Some (Inr [])))
                (filter (column_present (heap s ! data)) (curves_of (tracks_config ! i))))"
  using returned_twins_map [OF assms(1,2),
        where f = "\<lambda>twin_ax. (tw_xgrid twin_ax, vertical_gridlines twin_ax vmin vmax)"
          and F = "\<lambda>g c. if dict_get (cv_show_grid c) g
                        then (True,
                              if dict_get (cv_log_scale c) False then None
                              else Some (Inr (map (\<lambda>k. vmin + real k *
                                      ((vmax - vmin) / real (nat num_vertical_gridlines - 1)))
                                    [0..<nat num_vertical_gridlines])))
                        else (False, Some (Inr []))"]
    gridlines_draw_curve [OF assms(3)]
  by simp

text \<open>
  On an axis from 0 to 150 the linear curve with the grid on has its 5 gridlines at 0,
  37.5, 75, 112.5 and 150, and the curve with \<^verbatim>\<open>show_grid\<close> false has none.
\<close>

theorem gridlines_follow_show_grid_witness:
  "\<exists>fig s'. combo_plot example_savgol 0 example_tracks ''DEPT'' 3700 4000 8 (17 / 20) 50 10 5 None
       \<lparr>heap = [example_logs], stdout = []\<rparr> = (Inr fig, s')
     \<and> length (fig_axes fig) = length example_tracks
     \<and> ax_twins (fig_axes fig ! 1) = []
     \<and> map (\<lambda>twin_ax. (tw_xgrid twin_ax, vertical_gridlines twin_ax 0 150))
           (ax_twins (fig_axes fig ! 0))
         = [(True, Some (Inr [0, 75 / 2, 75, 225 / 2, 150])), (True, None),
            (False, Some (Inr []))]"
proof -
  let ?s = "\<lparr>heap = [example_logs], stdout = []\<rparr>"
  obtain fig s' where run: "combo_plot example_savgol 0 example_tracks ''DEPT'' 3700 4000 8
      (17 / 20) 50 10 5 None ?s = (Inr fig, s')"
    using example_logs_returns by blast
  have wf: "wf_table (heap ?s ! 0)" by (simp add: wf_table_def columns_def)
  have n: "(0::int) \<le> 5" by simp
  have u: "[0..<5] = [0, 1, 2, 3, 4]" by (simp add: upt_rec)
  from gridlines_follow_show_grid [OF run wf n, of 0 150]
  have g: "length (fig_axes fig) = length example_tracks
     \<and> ax_twins (fig_axes fig ! 1) = []
     \<and> map (\<lambda>twin_ax. (tw_xgrid twin_ax, vertical_gridlines twin_ax 0 150))
           (ax_twins (fig_axes fig ! 0))
         = [(True, Some (Inr [0, 75 / 2, 75, 225 / 2, 150])), (True, None),
            (False, Some (Inr []))]"
    by (simp add: curves_of_def column_present_def column_of_def columns_def dict_get_def
        All_less_Suc u)
  show ?thesis
    by (rule exI [of _ fig], rule exI [of _ s'], rule conjI [OF run], rule g)
qed

text \<open>
  C2 as stated fails: a curve drawn with \<^verbatim>\<open>show_grid\<close> false has no vertical grid and no
  locator for \<open>num_vertical_gridlines = 5\<close> positions on its axis: it has no vertical
  gridline, where the claim gives it 5.
\<close>

theorem gridlines_show_grid_off_counterexample:
  "combo_plot example_savgol 0
     [\<lparr>tk_title = Some ''Gamma'', tk_show_grid = None, tk_smoothing = None,
       tk_curves = Some [(plain_curve ''GR'')\<lparr>cv_show_grid := Some False\<rparr>]\<rparr>]
     ''DEPT'' 3700 4000 8 (17 / 20) 50 10 5 None
     \<lparr>heap = [example_logs], stdout = []\<rparr>
   = (Inr \<lparr>fig_size = (4, 8), fig_adjust_top = 17 / 20,
           fig_axes = [\<lparr>ax_ylim = Some (3700, 4000), ax_yinverted = True,
             ax_ygrid_minor = True, ax_ygrid_major = True,
             ax_ymajor_locator = Some (MultipleLocator 50),
             ax_yminor_locator = Some (MultipleLocator 10),
             ax_xaxis_visible = False, ax_ylabel = Some ''Depth'',
             ax_title = Some ''Gamma'', ax_title_pad = 60,
             ax_twins = [\<lparr>tw_xlim = None, tw_xscale = ''linear'', tw_xinverted = False,
               tw_spine_outward = 0, tw_xlabel = ''GR'', tw_xlabel_color = ''black'',
               tw_tick_color = ''black'', tw_line_x = [Flt 60, NaN, Flt 80],
               tw_line_y = [Flt 3700, Flt 3750, Flt 3999], tw_linestyle = ''-'',
               tw_line_color = ''black'', tw_major_locator = None,
               tw_major_formatter = None, tw_xgrid = False, tw_axisbelow = False\<rparr>],
             ax_hlines = [], ax_texts = []\<rparr>]\<rparr>,
      \<lparr>heap = [example_logs, example_filtered, example_filtered], stdout = []\<rparr>)
   \<and> vertical_gridlines \<lparr>tw_xlim = None, tw_xscale = ''linear'', tw_xinverted = False,
               tw_spine_outward = 0, tw_xlabel = ''GR'', tw_xlabel_color = ''black'',
               tw_tick_color = ''black'', tw_line_x = [Flt 60, NaN, Flt 80],
               tw_line_y = [Flt 3700, Flt 3750, Flt 3999], tw_linestyle = ''-'',
               tw_line_color = ''black'', tw_major_locator = None,
               tw_major_formatter = None, tw_xgrid = False, tw_axisbelow = False\<rparr> 60 80
       = Some (Inr [])"
  using combo_plot_run [of 0 "\<lparr>heap = [example_logs], stdout = []\<rparr>" "''DEPT''"
      "[Flt 3690, Flt 3700, Flt 3750, Flt 3999, Flt 4010]" example_savgol
      "[\<lparr>tk_title = Some ''Gamma'', tk_show_grid = None, tk_smoothing = None,
       tk_curves = Some [(plain_curve ''GR'')\<lparr>cv_show_grid := Some False\<rparr>]\<rparr>]"
      3700 4000 8 "17 / 20" 50 10 5 None] example_savgol_ok
  by (simp add: wf_table_def columns_def config_ok_def select_rows_def depth_mask_def
      and_mask_def ge_scalar_def le_scalar_def smooth_curves_def smoothed_curves_def
      dict_get_def get_column_def rendered_figure_def prepared_axes_def general_settings_def
      new_axes_def plotted_track_def curve_twin_def draw_curve_def twiny_def
      track_warnings_def curve_warning_def Let_def vertical_gridlines_def)



end
